theory Spec2Isabelle
  imports Main "HOL-Library.Word" "HOL-Library.Multiset"
begin

section \<open>JavaScript strings\<close>

text \<open>
  A JavaScript string is a sequence of UTF-16 code units; \<open>length\<close>, \<open>substring\<close>,
  \<open>startsWith\<close>, \<open>split\<close> and \<open>trim\<close> all work on code units. A literal of the source
  is written \<open>js ''...''\<close>.
\<close>

type_synonym jsstring = "16 word list"

definition js :: "string \<Rightarrow> jsstring" where
  "js s = map of_char s"

definition startsWith :: "jsstring \<Rightarrow> jsstring \<Rightarrow> bool" where
  "startsWith s p = (take (length p) s = p)"

text \<open>The code units that \<open>String.prototype.trim\<close> strips: WhiteSpace and LineTerminator.\<close>

definition isWhiteSpace :: "16 word \<Rightarrow> bool" where
  "isWhiteSpace c = (c \<in> {0x0009, 0x000A, 0x000B, 0x000C, 0x000D, 0x0020, 0x00A0, 0x1680,
      0x2000, 0x2001, 0x2002, 0x2003, 0x2004, 0x2005, 0x2006, 0x2007, 0x2008, 0x2009, 0x200A,
      0x2028, 0x2029, 0x202F, 0x205F, 0x3000, 0xFEFF})"

definition trim :: "jsstring \<Rightarrow> jsstring" where
  "trim s = rev (dropWhile isWhiteSpace (rev (dropWhile isWhiteSpace s)))"

text \<open>The decimal digits of a number, as a template literal prints \<open>response.status\<close>.\<close>

fun digits :: "nat \<Rightarrow> jsstring" where
  "digits n = (if n < 10 then [of_nat (48 + n)]
               else digits (n div 10) @ [of_nat (48 + n mod 10)])"

declare digits.simps [simp del]

text \<open>
  For stating what the status message holds: the number that a string of decimal digits
  denotes.
\<close>

definition decimal :: "jsstring \<Rightarrow> nat" where
  "decimal ds = foldl (\<lambda>n d. 10 * n + (unat d - 48)) 0 ds"

text \<open>\<open>s.split(',')\<close>: the pieces between commas; the empty string gives one empty piece.\<close>

fun split_comma :: "jsstring \<Rightarrow> jsstring list" where
  "split_comma [] = [[]]"
| "split_comma (c # cs) =
     (if c = 0x2C then [] # split_comma cs
      else (case split_comma cs of
              [] \<Rightarrow> [[c]]
            | piece # pieces \<Rightarrow> (c # piece) # pieces))"

section \<open>The platform\<close>

text \<open>
  \<open>new URL(s)\<close> and \<open>toLowerCase\<close> are built into the JavaScript runtime; they are
  parameters of the model. \<open>parseUrl\<close> is \<open>None\<close> where \<open>new URL\<close> throws. Of a URL
  object the code reads \<open>href\<close> and \<open>hostname\<close>.
\<close>

record url =
  href :: jsstring
  hostname :: jsstring

record platform =
  parseUrl :: "jsstring \<Rightarrow> url option"
  toLowerCase :: "jsstring \<Rightarrow> jsstring"

text \<open>What an async function settles to: its promise rejects, or resolves to a value.\<close>

datatype 'a outcome = Throws | Returns 'a

section \<open>lib/utils.js\<close>

subsection \<open>generateSummary\<close>

text \<open>
  What the reader service answers to the request: \<open>fetch\<close> rejects, or a response arrives
  with a status and a body (\<open>None\<close> where \<open>response.text()\<close> rejects).
\<close>

datatype summary_reply = SummaryNetworkError | SummaryResponse nat "jsstring option"

definition response_ok :: "nat \<Rightarrow> bool" where
  "response_ok status = (200 \<le> status \<and> status \<le> 299)"

definition cleanUrl :: "jsstring \<Rightarrow> jsstring" where
  "cleanUrl u =
     (if \<not> startsWith u (js ''http://'') \<and> \<not> startsWith u (js ''https://'')
      then js ''https://'' @ u else u)"

definition summaryRequestUrl :: "jsstring \<Rightarrow> jsstring" where
  "summaryRequestUrl u = js ''https://r.jina.ai/'' @ cleanUrl u"

definition unableMsg :: jsstring where
  "unableMsg = js ''Unable to generate summary for this URL.''"

definition statusMsg :: "nat \<Rightarrow> jsstring" where
  "statusMsg status =
     js ''Unable to generate summary for this URL. (Status: '' @ digits status @ js '')''"

definition ellipsis :: jsstring where
  "ellipsis = js ''...''"

text \<open>The body of the \<open>try\<close> block, from the reply on.\<close>

definition generateSummary_try :: "summary_reply \<Rightarrow> jsstring outcome" where
  "generateSummary_try r =
     (case r of
        SummaryNetworkError \<Rightarrow> Throws
      | SummaryResponse status body \<Rightarrow>
          if \<not> response_ok status then Returns (statusMsg status)
          else (case body of
                  None \<Rightarrow> Throws
                | Some summary \<Rightarrow>
                    if summary = [] \<or> length summary < 10 then Returns unableMsg
                    else let cleanSummary = trim summary in
                      if length cleanSummary > 400
                      then Returns (take 400 cleanSummary @ ellipsis)
                      else Returns cleanSummary))"

text \<open>The whole function: the \<open>catch\<close> block turns every exception into the fallback.\<close>

definition generateSummary :: "jsstring \<Rightarrow> summary_reply \<Rightarrow> jsstring outcome" where
  "generateSummary u r =
     (case generateSummary_try r of
        Throws \<Rightarrow> Returns unableMsg
      | Returns v \<Rightarrow> Returns v)"

subsection \<open>getFaviconUrl\<close>

definition getFaviconUrl :: "platform \<Rightarrow> jsstring \<Rightarrow> jsstring" where
  "getFaviconUrl P u =
     (case parseUrl P u of
        Some urlObj \<Rightarrow>
          js ''https://www.google.com/s2/favicons?domain='' @ hostname urlObj @ js ''&sz=32''
      | None \<Rightarrow> js ''/favicon.ico'')"

subsection \<open>getPageTitle\<close>

text \<open>
  What the title endpoint answers: no response arrives (\<open>fetch\<close> rejects, or building
  the request throws), or a response arrives with a status and a body. \<open>response.json()\<close> rejects on a body that
  is not JSON (\<open>NotJson\<close>); on \<open>null\<close> reading \<open>data.title\<close> throws (\<open>JsonNull\<close>);
  any other JSON value has a title or has none (\<open>JsonObj\<close>, the title being a string
  as the endpoint's contract has it).
\<close>

datatype json_body = NotJson | JsonNull | JsonObj "jsstring option"

datatype title_reply = TitleNetworkError | TitleResponse nat json_body

text \<open>\<open>new URL(url).hostname\<close>, which throws where the string does not parse.\<close>

definition hostnameOf :: "platform \<Rightarrow> jsstring \<Rightarrow> jsstring outcome" where
  "hostnameOf P u = (case parseUrl P u of None \<Rightarrow> Throws | Some urlObj \<Rightarrow> Returns (hostname urlObj))"

text \<open>The body of the \<open>try\<close> block: \<open>data.title || new URL(url).hostname\<close>.\<close>

definition getPageTitle_try :: "platform \<Rightarrow> jsstring \<Rightarrow> title_reply \<Rightarrow> jsstring outcome" where
  "getPageTitle_try P u r =
     (case r of
        TitleNetworkError \<Rightarrow> Throws
      | TitleResponse status body \<Rightarrow>
          (case body of
             NotJson \<Rightarrow> Throws
           | JsonNull \<Rightarrow> Throws
           | JsonObj None \<Rightarrow> hostnameOf P u
           | JsonObj (Some title) \<Rightarrow> if title \<noteq> [] then Returns title else hostnameOf P u))"

text \<open>The whole function: the \<open>catch\<close> block evaluates \<open>new URL(url).hostname\<close> again.\<close>

definition getPageTitle :: "platform \<Rightarrow> jsstring \<Rightarrow> title_reply \<Rightarrow> jsstring outcome" where
  "getPageTitle P u r =
     (case getPageTitle_try P u r of
        Throws \<Rightarrow> hostnameOf P u
      | Returns v \<Rightarrow> Returns v)"

section \<open>components/Dashboard.js\<close>

subsection \<open>Bookmarks, rows and requests\<close>

text \<open>
  A bookmark's \<open>id\<close> is a number (\<open>Date.now()\<close>) on a placeholder and the store's uuid, a
  string, on a persisted row; \<open>===\<close> never equates the two. \<open>isLoading\<close> is absent, hence
  falsy, on a row of the store.
\<close>

datatype jsid = NumId int | StrId jsstring

record bookmark =
  bm_id :: jsid
  bm_url :: jsstring
  bm_title :: jsstring
  bm_summary :: jsstring
  bm_favicon :: jsstring
  bm_tags :: "jsstring list option"
  bm_created_at :: jsstring
  bm_user_id :: "jsstring option"
  isLoading :: bool

record row =
  row_id :: jsstring
  row_user_id :: jsstring
  row_url :: jsstring
  row_title :: jsstring
  row_summary :: jsstring
  row_favicon :: jsstring
  row_tags :: "jsstring list option"
  row_created_at :: jsstring

definition ofRow :: "row \<Rightarrow> bookmark" where
  "ofRow r = \<lparr> bm_id = StrId (row_id r), bm_url = row_url r, bm_title = row_title r,
               bm_summary = row_summary r, bm_favicon = row_favicon r, bm_tags = row_tags r,
               bm_created_at = row_created_at r, bm_user_id = Some (row_user_id r),
               isLoading = False \<rparr>"

text \<open>The object handed to \<open>insert\<close>.\<close>

record payload =
  p_user_id :: jsstring
  p_url :: jsstring
  p_title :: jsstring
  p_summary :: jsstring
  p_favicon :: jsstring
  p_tags :: "jsstring list"

text \<open>The calls that leave the component: to the two fetchers and to the store.\<close>

datatype request =
    TitleRequest jsstring
  | SummaryRequest jsstring
  | InsertRequest payload
  | DeleteRequest jsid jsstring
  | SelectRequest jsstring

text \<open>The store answers an insert with an error, or with the stored row (\<open>data[0]\<close>).\<close>

datatype insert_reply = InsertFailed | Inserted row

subsection \<open>The component's state\<close>

text \<open>
  The local variables of an \<open>addBookmark\<close> call that is suspended at an \<open>await\<close>:
  \<open>title_res\<close> and \<open>summary_res\<close> are \<open>None\<close> until that fetcher has settled.
\<close>

record invocation =
  tempId :: int
  inv_url :: url
  inv_tags :: "jsstring list"
  urlToSave :: jsstring
  tagsToSave :: jsstring
  title_res :: "jsstring option"
  summary_res :: "jsstring option"

text \<open>
  The \<open>useState\<close> cells the handlers read and write, the suspended \<open>addBookmark\<close> calls
  (by a handle), and a log of every request made, each with the bookmark list as it was
  when the request was made. The log is for stating what was called and when; no handler
  reads it.
\<close>

record dashboard =
  bookmarks :: "bookmark list"
  saving :: bool
  deleting :: "jsid option"
  newUrl :: jsstring
  newTags :: jsstring
  error :: jsstring
  selectedTags :: "jsstring list"
  draggedItem :: "bookmark option"
  pending :: "nat \<Rightarrow> invocation option"
  next_handle :: nat
  log :: "(request \<times> bookmark list) list"

definition initial :: dashboard where
  "initial = \<lparr> bookmarks = [], saving = False, deleting = None, newUrl = [], newTags = [],
               error = [], selectedTags = [], draggedItem = None, pending = (\<lambda>h. None),
               next_handle = 0, log = [] \<rparr>"

definition request :: "request \<Rightarrow> dashboard \<Rightarrow> dashboard" where
  "request r s = s\<lparr> log := log s @ [(r, bookmarks s)] \<rparr>"

subsection \<open>fetchBookmarks\<close>

definition fetchBookmarks_start :: "jsstring \<Rightarrow> dashboard \<Rightarrow> dashboard" where
  "fetchBookmarks_start uid s = request (SelectRequest uid) s"

text \<open>The reply is \<open>None\<close> on an error of the store, else the rows (\<open>data || []\<close>).\<close>

definition fetchBookmarks_done :: "row list option \<Rightarrow> dashboard \<Rightarrow> dashboard" where
  "fetchBookmarks_done reply s =
     (case reply of
        None \<Rightarrow> s\<lparr> error := js ''Failed to load bookmarks'' \<rparr>
      | Some rows \<Rightarrow> s\<lparr> bookmarks := map ofRow rows \<rparr>)"

subsection \<open>The derived tag list\<close>

text \<open>The effect that collects the tags into a \<open>Set\<close>: distinct, in order of first occurrence.\<close>

definition tagsOf :: "bookmark \<Rightarrow> jsstring list" where
  "tagsOf b = (case bm_tags b of None \<Rightarrow> [] | Some ts \<Rightarrow> ts)"

definition availableTags :: "bookmark list \<Rightarrow> jsstring list" where
  "availableTags bs =
     fold (\<lambda>tag acc. if tag \<in> set acc then acc else acc @ [tag]) (concat (map tagsOf bs)) []"

subsection \<open>addBookmark\<close>

definition failedMsg :: jsstring where
  "failedMsg = js ''Failed to add bookmark. Please check the URL.''"

definition loadingTitle :: jsstring where
  "loadingTitle = js ''Loading...''"

text \<open>The argument of \<open>new URL\<close> in \<open>addBookmark\<close>.\<close>

definition normalizeInput :: "jsstring \<Rightarrow> jsstring" where
  "normalizeInput raw = (if startsWith raw (js ''http'') then raw else js ''https://'' @ raw)"

definition processTags :: "platform \<Rightarrow> jsstring \<Rightarrow> jsstring list" where
  "processTags P raw =
     filter (\<lambda>tag. length tag > 0) (map (\<lambda>tag. toLowerCase P (trim tag)) (split_comma raw))"

definition placeholder :: "platform \<Rightarrow> int \<Rightarrow> jsstring \<Rightarrow> url \<Rightarrow> jsstring list \<Rightarrow> bookmark" where
  "placeholder P now stamp u tags =
     \<lparr> bm_id = NumId now, bm_url = href u, bm_title = loadingTitle,
       bm_summary = js ''Generating summary...'', bm_favicon = getFaviconUrl P (href u),
       bm_tags = Some tags, bm_created_at = stamp, bm_user_id = None, isLoading = True \<rparr>"

text \<open>The \<open>catch\<close> block followed by the \<open>finally\<close> block.\<close>

definition addBookmark_catch :: "jsstring \<Rightarrow> jsstring \<Rightarrow> dashboard \<Rightarrow> dashboard" where
  "addBookmark_catch rawUrl rawTags s =
     s\<lparr> error := failedMsg, newUrl := rawUrl, newTags := rawTags,
        bookmarks := filter (\<lambda>b. \<not> isLoading b) (bookmarks s), saving := False \<rparr>"

text \<open>
  From the submit event to the \<open>await\<close> of \<open>Promise.all\<close>: \<open>now\<close> is what \<open>Date.now()\<close>
  reads and \<open>stamp\<close> what \<open>new Date().toISOString()\<close> gives. \<open>setBookmarks\<close> only queues
  its update: React applies it when the handler gives up control at the \<open>await\<close>, and by
  then both fetchers have been called and have sent their requests. So the two requests
  are logged with the list as it was before the call, and the placeholder is in the list
  when this step ends.
\<close>

definition addBookmark_start :: "platform \<Rightarrow> int \<Rightarrow> jsstring \<Rightarrow> dashboard \<Rightarrow> dashboard" where
  "addBookmark_start P now stamp s =
     (if trim (newUrl s) = [] then s
      else
        let rawUrl = newUrl s; rawTags = newTags s;
            s1 = s\<lparr> saving := True, error := [], newUrl := [], newTags := [] \<rparr>
        in case parseUrl P (normalizeInput rawUrl) of
             None \<Rightarrow> addBookmark_catch rawUrl rawTags s1
           | Some u \<Rightarrow>
               let tags = processTags P rawTags;
                   s2 = request (TitleRequest (href u)) s1;
                   s3 = request (SummaryRequest (summaryRequestUrl (href u))) s2;
                   s4 = s3\<lparr> bookmarks := placeholder P now stamp u tags # bookmarks s3 \<rparr>
               in s4\<lparr> pending := (pending s4)(next_handle s4 \<mapsto>
                          \<lparr> tempId = now, inv_url = u, inv_tags = tags, urlToSave = rawUrl,
                            tagsToSave = rawTags, title_res = None, summary_res = None \<rparr>),
                       next_handle := Suc (next_handle s4) \<rparr>)"

text \<open>The two entries of \<open>Promise.all\<close>, each with its own \<open>.catch\<close>.\<close>

definition resolveTitle :: "platform \<Rightarrow> url \<Rightarrow> title_reply \<Rightarrow> jsstring" where
  "resolveTitle P u r = (case getPageTitle P (href u) r of Throws \<Rightarrow> href u | Returns t \<Rightarrow> t)"

definition resolveSummary :: "url \<Rightarrow> summary_reply \<Rightarrow> jsstring" where
  "resolveSummary u r =
     (case generateSummary (href u) r of
        Throws \<Rightarrow> js ''Could not generate summary for this page.''
      | Returns v \<Rightarrow> v)"

text \<open>After \<open>Promise.all\<close> has resolved: the insert is sent to the store.\<close>

definition sendInsert :: "platform \<Rightarrow> jsstring \<Rightarrow> invocation \<Rightarrow> jsstring \<Rightarrow> jsstring \<Rightarrow> dashboard \<Rightarrow> dashboard" where
  "sendInsert P uid iv title summary s =
     request (InsertRequest \<lparr> p_user_id = uid, p_url = href (inv_url iv), p_title = title,
                p_summary = summary, p_favicon = getFaviconUrl P (href (inv_url iv)),
                p_tags = inv_tags iv \<rparr>) s"

text \<open>
  A fetcher of the call with handle \<open>h\<close> settles. The call goes on to the insert when
  the other fetcher has settled already.
\<close>

definition title_settled :: "platform \<Rightarrow> jsstring \<Rightarrow> nat \<Rightarrow> title_reply \<Rightarrow> dashboard \<Rightarrow> dashboard" where
  "title_settled P uid h r s =
     (case pending s h of
        None \<Rightarrow> s
      | Some iv \<Rightarrow>
          (case title_res iv of
             Some t \<Rightarrow> s
           | None \<Rightarrow>
               let title = resolveTitle P (inv_url iv) r;
                   iv' = iv\<lparr> title_res := Some title \<rparr>;
                   s1 = s\<lparr> pending := (pending s)(h \<mapsto> iv') \<rparr>
               in (case summary_res iv of
                     None \<Rightarrow> s1
                   | Some summary \<Rightarrow> sendInsert P uid iv' title summary s1)))"

definition summary_settled :: "platform \<Rightarrow> jsstring \<Rightarrow> nat \<Rightarrow> summary_reply \<Rightarrow> dashboard \<Rightarrow> dashboard" where
  "summary_settled P uid h r s =
     (case pending s h of
        None \<Rightarrow> s
      | Some iv \<Rightarrow>
          (case summary_res iv of
             Some t \<Rightarrow> s
           | None \<Rightarrow>
               let summary = resolveSummary (inv_url iv) r;
                   iv' = iv\<lparr> summary_res := Some summary \<rparr>;
                   s1 = s\<lparr> pending := (pending s)(h \<mapsto> iv') \<rparr>
               in (case title_res iv of
                     None \<Rightarrow> s1
                   | Some title \<Rightarrow> sendInsert P uid iv' title summary s1)))"

text \<open>
  The store answers the insert of the call with handle \<open>h\<close> (no answer can come before
  the insert was sent): the swap by \<open>tempId\<close>, or the \<open>catch\<close> block; then \<open>finally\<close>.
\<close>

definition addBookmark_finish :: "nat \<Rightarrow> insert_reply \<Rightarrow> dashboard \<Rightarrow> dashboard" where
  "addBookmark_finish h reply s =
     (case pending s h of
        None \<Rightarrow> s
      | Some iv \<Rightarrow>
          if title_res iv = None \<or> summary_res iv = None then s
          else
            let s1 = s\<lparr> pending := (pending s)(h := None) \<rparr>
            in (case reply of
                  InsertFailed \<Rightarrow> addBookmark_catch (urlToSave iv) (tagsToSave iv) s1
                | Inserted r \<Rightarrow>
                    s1\<lparr> bookmarks :=
                           map (\<lambda>b. if bm_id b = NumId (tempId iv) then ofRow r else b)
                             (bookmarks s1),
                         saving := False \<rparr>))"

subsection \<open>deleteBookmark\<close>

definition deleteBookmark_start :: "jsstring \<Rightarrow> jsid \<Rightarrow> dashboard \<Rightarrow> dashboard" where
  "deleteBookmark_start uid i s =
     request (DeleteRequest i uid) (s\<lparr> deleting := Some i, error := [] \<rparr>)"

definition deleteBookmark_finish :: "jsid \<Rightarrow> bool \<Rightarrow> dashboard \<Rightarrow> dashboard" where
  "deleteBookmark_finish i succeeded s =
     (if succeeded
      then s\<lparr> bookmarks := filter (\<lambda>b. bm_id b \<noteq> i) (bookmarks s), deleting := None \<rparr>
      else s\<lparr> error := js ''Failed to delete bookmark'', deleting := None \<rparr>)"

subsection \<open>Tag filters\<close>

definition toggleTagFilter :: "jsstring \<Rightarrow> dashboard \<Rightarrow> dashboard" where
  "toggleTagFilter tag s =
     (if tag \<in> set (selectedTags s)
      then s\<lparr> selectedTags := filter (\<lambda>t. t \<noteq> tag) (selectedTags s) \<rparr>
      else s\<lparr> selectedTags := selectedTags s @ [tag] \<rparr>)"

definition clearTagFilters :: "dashboard \<Rightarrow> dashboard" where
  "clearTagFilters s = s\<lparr> selectedTags := [] \<rparr>"

definition matchesFilter :: "jsstring list \<Rightarrow> bookmark \<Rightarrow> bool" where
  "matchesFilter sel b =
     (case bm_tags b of
        None \<Rightarrow> False
      | Some ts \<Rightarrow> list_ex (\<lambda>tag. tag \<in> set sel) ts)"

definition filteredBookmarks :: "dashboard \<Rightarrow> bookmark list" where
  "filteredBookmarks s =
     (if length (selectedTags s) = 0 then bookmarks s
      else filter (matchesFilter (selectedTags s)) (bookmarks s))"

subsection \<open>Drag and drop\<close>

fun findIndex :: "('a \<Rightarrow> bool) \<Rightarrow> 'a list \<Rightarrow> int" where
  "findIndex p [] = - 1"
| "findIndex p (x # xs) =
     (if p x then 0 else (let i = findIndex p xs in if i < 0 then - 1 else i + 1))"

text \<open>
  \<open>Array.prototype.splice\<close>: a negative start counts from the end, and the start is
  clamped into the array.
\<close>

definition spliceStart :: "int \<Rightarrow> nat \<Rightarrow> nat" where
  "spliceStart start len =
     (if start < 0 then nat (max (int len + start) 0) else min (nat start) len)"

text \<open>\<open>xs.splice(start, 1)\<close>: the array afterwards, and the removed elements.\<close>

definition splice_remove1 :: "'a list \<Rightarrow> int \<Rightarrow> 'a list \<times> 'a list" where
  "splice_remove1 xs start =
     (let k = spliceStart start (length xs); dc = min 1 (length xs - k)
      in (take k xs @ drop (k + dc) xs, take dc (drop k xs)))"

text \<open>\<open>xs.splice(start, 0, item)\<close>: the array afterwards.\<close>

definition splice_insert :: "'a list \<Rightarrow> int \<Rightarrow> 'a \<Rightarrow> 'a list" where
  "splice_insert xs start item =
     (let k = spliceStart start (length xs) in take k xs @ [item] @ drop k xs)"

definition handleDragStart :: "bookmark \<Rightarrow> dashboard \<Rightarrow> dashboard" where
  "handleDragStart b s = s\<lparr> draggedItem := Some b \<rparr>"

text \<open>
  \<open>handleDrop\<close> is \<open>None\<close> where the first \<open>splice\<close> removes nothing: \<open>movedBookmark\<close> is
  then \<open>undefined\<close>, and the array given to \<open>setBookmarks\<close> is no list of bookmarks.
\<close>

definition handleDrop :: "bookmark \<Rightarrow> dashboard \<Rightarrow> dashboard option" where
  "handleDrop targetBookmark s =
     (case draggedItem s of
        None \<Rightarrow> Some (s\<lparr> draggedItem := None \<rparr>)
      | Some dragged \<Rightarrow>
          if bm_id dragged = bm_id targetBookmark then Some (s\<lparr> draggedItem := None \<rparr>)
          else
            let fb = filteredBookmarks s;
                draggedIndex = findIndex (\<lambda>b. bm_id b = bm_id dragged) fb;
                targetIndex = findIndex (\<lambda>b. bm_id b = bm_id targetBookmark) fb;
                (newBookmarks, removed) = splice_remove1 fb draggedIndex
            in (case removed of
                  [] \<Rightarrow> None
                | movedBookmark # rest \<Rightarrow>
                    Some (s\<lparr> bookmarks := splice_insert newBookmarks targetIndex movedBookmark,
                            draggedItem := None \<rparr>)))"

subsection \<open>handleSignOut\<close>

definition handleSignOut_failed :: "dashboard \<Rightarrow> dashboard" where
  "handleSignOut_failed s = s\<lparr> error := js ''Failed to sign out'' \<rparr>"

subsection \<open>The states the component can be in\<close>

text \<open>
  The events the page can deliver. The guards are the page's own: both inputs and the
  submit button are \<open>disabled\<close> while \<open>saving\<close>, and the button also while the URL is
  blank; a card of the filtered list is draggable, a drop target and deletable only when
  it is not loading; a filter button exists for each available tag. The replies of the
  network come at any time.
\<close>

inductive reachable :: "platform \<Rightarrow> jsstring \<Rightarrow> dashboard \<Rightarrow> bool" for P :: platform and uid :: jsstring where
  r_initial: "reachable P uid initial"
| r_load_start: "reachable P uid s \<Longrightarrow> reachable P uid (fetchBookmarks_start uid s)"
| r_load_done: "reachable P uid s \<Longrightarrow> reachable P uid (fetchBookmarks_done reply s)"
| r_type_url: "reachable P uid s \<Longrightarrow> \<not> saving s \<Longrightarrow> reachable P uid (s\<lparr> newUrl := v \<rparr>)"
| r_type_tags: "reachable P uid s \<Longrightarrow> \<not> saving s \<Longrightarrow> reachable P uid (s\<lparr> newTags := v \<rparr>)"
| r_submit: "reachable P uid s \<Longrightarrow> \<not> saving s \<Longrightarrow> trim (newUrl s) \<noteq> [] \<Longrightarrow>
     reachable P uid (addBookmark_start P now stamp s)"
| r_title: "reachable P uid s \<Longrightarrow> reachable P uid (title_settled P uid h tr s)"
| r_summary: "reachable P uid s \<Longrightarrow> reachable P uid (summary_settled P uid h sr s)"
| r_insert_reply: "reachable P uid s \<Longrightarrow> reachable P uid (addBookmark_finish h ir s)"
| r_delete: "reachable P uid s \<Longrightarrow> b \<in> set (filteredBookmarks s) \<Longrightarrow> \<not> isLoading b \<Longrightarrow>
     deleting s \<noteq> Some (bm_id b) \<Longrightarrow> reachable P uid (deleteBookmark_start uid (bm_id b) s)"
| r_delete_reply: "reachable P uid s \<Longrightarrow> reachable P uid (deleteBookmark_finish i succeeded s)"
| r_toggle: "reachable P uid s \<Longrightarrow> tag \<in> set (availableTags (bookmarks s)) \<Longrightarrow>
     reachable P uid (toggleTagFilter tag s)"
| r_clear: "reachable P uid s \<Longrightarrow> reachable P uid (clearTagFilters s)"
| r_drag: "reachable P uid s \<Longrightarrow> b \<in> set (filteredBookmarks s) \<Longrightarrow> \<not> isLoading b \<Longrightarrow>
     reachable P uid (handleDragStart b s)"
| r_drop: "reachable P uid s \<Longrightarrow> b \<in> set (filteredBookmarks s) \<Longrightarrow> \<not> isLoading b \<Longrightarrow>
     handleDrop b s = Some s' \<Longrightarrow> reachable P uid s'"
| r_sign_out: "reachable P uid s \<Longrightarrow> reachable P uid (handleSignOut_failed s)"

subsection \<open>One call at a time\<close>

text \<open>
  What the guards of the page maintain: at most one \<open>addBookmark\<close> call is suspended, and
  only while \<open>saving\<close>; a loading entry of the list is that call's placeholder; and the
  entries with a numeric id are exactly the loading ones.
\<close>

definition single_flight :: "dashboard \<Rightarrow> bool" where
  "single_flight s \<longleftrightarrow>
     (\<forall>h iv. pending s h = Some iv \<longrightarrow>
        saving s
        \<and> (\<forall>b \<in> set (bookmarks s). isLoading b \<longrightarrow> bm_id b = NumId (tempId iv))
        \<and> (\<forall>h'. pending s h' \<noteq> None \<longrightarrow> h' = h))
     \<and> (\<not> saving s \<longrightarrow> (\<forall>b \<in> set (bookmarks s). \<not> isLoading b))
     \<and> (\<forall>b \<in> set (bookmarks s). \<forall>n. bm_id b = NumId n \<longrightarrow> isLoading b)"

section \<open>Example data\<close>

text \<open>
  A small stand-in for the runtime, used in the examples only: \<open>demo_parse\<close> accepts
  \<open>http://\<close> or \<open>https://\<close> followed by a host, and gives the path \<open>/\<close> when there is
  none; \<open>ascii_lower\<close> lowers the letters A to Z.
\<close>

definition ascii_lower :: "16 word \<Rightarrow> 16 word" where
  "ascii_lower c = (if 0x41 \<le> c \<and> c \<le> 0x5A then c + 0x20 else c)"

definition demo_parse :: "jsstring \<Rightarrow> url option" where
  "demo_parse s =
     (let scheme = (if startsWith s (js ''https://'') then js ''https://''
                    else if startsWith s (js ''http://'') then js ''http://'' else []);
          rest = drop (length scheme) s;
          host = takeWhile (\<lambda>c. c \<noteq> 0x2F) rest;
          path = dropWhile (\<lambda>c. c \<noteq> 0x2F) rest
      in if scheme = [] \<or> host = [] then None
         else Some \<lparr> href = scheme @ host @ (if path = [] then js ''/'' else path),
                     hostname = host \<rparr>)"

definition demo :: platform where
  "demo = \<lparr> parseUrl = demo_parse, toLowerCase = map ascii_lower \<rparr>"

definition example_user :: jsstring where
  "example_user = js ''user-1''"

definition example_stamp :: jsstring where
  "example_stamp = js ''2025-01-01T00:00:00.000Z''"

definition tagged :: "jsstring \<Rightarrow> jsstring list \<Rightarrow> row" where
  "tagged i tags =
     \<lparr> row_id = i, row_user_id = example_user, row_url = js ''https://example.org/'',
       row_title = js ''Example'', row_summary = js ''An example page.'',
       row_favicon = js ''/favicon.ico'', row_tags = Some tags,
       row_created_at = example_stamp \<rparr>"

text \<open>The list is loaded with one row; then a URL and tags are typed into the form.\<close>

definition example_idle :: dashboard where
  "example_idle =
     (fetchBookmarks_done (Some [tagged (js ''r1'') [js ''a'']]) initial)
       \<lparr> newUrl := js ''example.com'', newTags := js ''a,b'' \<rparr>"

text \<open>The same, with the tag \<open>a\<close> selected as filter and \<open>b\<close> typed as the new tag.\<close>

definition example_filtered_idle :: dashboard where
  "example_filtered_idle =
     (toggleTagFilter (js ''a'') (fetchBookmarks_done (Some [tagged (js ''r1'') [js ''a'']]) initial))
       \<lparr> newUrl := js ''example.com'', newTags := js ''b'' \<rparr>"

text \<open>
  One call of \<open>addBookmark\<close> from there: both requests fail, so both fetchers settle with
  their fallbacks; then the store refuses the insert, or accepts it.
\<close>

definition example_settled :: dashboard where
  "example_settled =
     summary_settled demo example_user 0 SummaryNetworkError
       (title_settled demo example_user 0 TitleNetworkError
          (addBookmark_start demo 1735689600000 example_stamp example_idle))"

definition example_failed :: dashboard where
  "example_failed = addBookmark_finish 0 InsertFailed example_settled"

definition example_stored :: dashboard where
  "example_stored = addBookmark_finish 0 (Inserted (tagged (js ''r2'') [js ''a'', js ''b''])) example_settled"




text \<open>Three rows loaded, the tag \<open>a\<close> selected, and the first card picked up.\<close>

definition example_dragging :: dashboard where
  "example_dragging =
     handleDragStart (ofRow (tagged (js ''1'') [js ''a'']))
       (toggleTagFilter (js ''a'')
          (fetchBookmarks_done
             (Some [tagged (js ''1'') [js ''a''], tagged (js ''2'') [js ''b''],
                    tagged (js ''3'') [js ''a'']]) initial))"

section \<open>Digits and trimming\<close>

lemma unat_digit: "d < 10 \<Longrightarrow> unat (48 + of_nat d :: 16 word) = 48 + d"
  by (simp add: unat_word_ariths unat_of_nat)

lemma rev_split: "xs = rev (dropWhile P (rev xs)) @ rev (takeWhile P (rev xs))"
proof -
  have "rev (takeWhile P (rev xs) @ dropWhile P (rev xs)) = xs"
    by simp
  then have "rev (dropWhile P (rev xs)) @ rev (takeWhile P (rev xs)) = xs"
    by (simp only: rev_append)
  then show ?thesis
    by (rule sym)
qed

lemma digits_small: "n < 10 \<Longrightarrow> digits n = [48 + of_nat n]"
  by (subst digits.simps) simp

lemma digits_large: "\<not> n < 10 \<Longrightarrow> digits n = digits (n div 10) @ [48 + of_nat (n mod 10)]"
  by (subst digits.simps) simp

lemma decimal_digits: "decimal (digits n) = n"
proof (induction n rule: digits.induct)
  case (1 n)
  show ?case
  proof (cases "n < 10")
    case True
    then show ?thesis
      by (simp add: digits_small decimal_def unat_digit)
  next
    case False
    with 1 have ih: "decimal (digits (n div 10)) = n div 10"
      by simp
    have "decimal (digits n) = 10 * decimal (digits (n div 10)) + n mod 10"
      by (simp add: digits_large [OF False] decimal_def unat_digit)
    with ih show ?thesis
      by simp
  qed
qed

lemma digit_range: "d < 10 \<Longrightarrow> (0x30 :: 16 word) \<le> 48 + of_nat d \<and> (48 + of_nat d :: 16 word) \<le> 0x39"
  by (simp add: word_le_nat_alt unat_digit)

lemma digits_range: "c \<in> set (digits n) \<Longrightarrow> 0x30 \<le> c \<and> c \<le> 0x39"
proof (induction n rule: digits.induct)
  case (1 n)
  show ?case
  proof (cases "n < 10")
    case True
    with 1(2) have "c = 48 + of_nat n"
      by (simp add: digits_small)
    with digit_range [OF True] show ?thesis
      by blast
  next
    case False
    with 1(2) have "c \<in> set (digits (n div 10)) \<or> c = 48 + of_nat (n mod 10)"
      by (auto simp: digits_large)
    then show ?thesis
    proof
      assume "c \<in> set (digits (n div 10))"
      then show ?thesis
        by (rule 1(1) [OF False])
    next
      assume c: "c = 48 + of_nat (n mod 10)"
      have "n mod 10 < 10"
        by simp
      from digit_range [OF this] c show ?thesis
        by blast
    qed
  qed
qed

lemma trim_splits:
  "\<exists>pre post. b = pre @ trim b @ post
     \<and> (\<forall>c \<in> set pre. isWhiteSpace c) \<and> (\<forall>c \<in> set post. isWhiteSpace c)"
proof -
  let ?d = "dropWhile isWhiteSpace b"
  let ?pre = "takeWhile isWhiteSpace b"
  let ?post = "rev (takeWhile isWhiteSpace (rev ?d))"
  have d: "?d = trim b @ ?post"
    unfolding trim_def by (rule rev_split)
  have "b = ?pre @ ?d"
    by simp
  with d have "b = ?pre @ trim b @ ?post"
    by simp
  moreover have "\<forall>c \<in> set ?pre. isWhiteSpace c"
    by (auto dest: set_takeWhileD)
  moreover have "\<forall>c \<in> set ?post. isWhiteSpace c"
    by (auto dest: set_takeWhileD)
  ultimately show ?thesis
    by blast
qed

lemma trim_ends:
  assumes "trim b \<noteq> []"
  shows "\<not> isWhiteSpace (hd (trim b))" and "\<not> isWhiteSpace (last (trim b))"
proof -
  let ?d = "dropWhile isWhiteSpace b"
  let ?e = "dropWhile isWhiteSpace (rev ?d)"
  have t: "trim b = rev ?e"
    by (simp add: trim_def)
  with assms have e: "?e \<noteq> []"
    by simp
  then have "\<not> isWhiteSpace (hd ?e)"
    by (rule hd_dropWhile)
  with e show "\<not> isWhiteSpace (last (trim b))"
    by (simp add: t last_rev)
  have dne: "?d \<noteq> []"
  proof
    assume "?d = []"
    then have "?e = []"
      by (simp only: rev.simps dropWhile.simps)
    with e show False
      by (rule notE)
  qed
  then have hd: "\<not> isWhiteSpace (hd ?d)"
    by (rule hd_dropWhile)
  have "?d = trim b @ rev (takeWhile isWhiteSpace (rev ?d))"
    unfolding trim_def by (rule rev_split)
  then have "hd ?d = hd (trim b @ rev (takeWhile isWhiteSpace (rev ?d)))"
    by (rule arg_cong)
  with assms have "hd ?d = hd (trim b)"
    by simp
  with hd show "\<not> isWhiteSpace (hd (trim b))"
    by simp
qed

lemma trim_padded:
  assumes "\<forall>c \<in> set pre. isWhiteSpace c" "\<forall>c \<in> set post. isWhiteSpace c"
    and "core \<noteq> []" "\<not> isWhiteSpace (hd core)" "\<not> isWhiteSpace (last core)"
  shows "trim (pre @ core @ post) = core"
proof -
  have a: "dropWhile isWhiteSpace (pre @ core @ post) = core @ post"
    using assms(1,3,4) by (cases core) (simp_all add: dropWhile_append)
  have b: "dropWhile isWhiteSpace (rev post @ rev core) = rev core"
    using assms(2,3,5) by (cases core rule: rev_cases) (simp_all add: dropWhile_append)
  show ?thesis
    by (simp add: trim_def a b)
qed

lemma whitespace_examples:
  "isWhiteSpace 0x20" "isWhiteSpace 0x09" "isWhiteSpace 0x0A" "isWhiteSpace 0x0D"
  "isWhiteSpace 0xA0" "\<not> isWhiteSpace 0x61" "\<not> isWhiteSpace 0x2E" "\<not> isWhiteSpace 0x41"
  by (simp_all add: isWhiteSpace_def)

lemma digits_examples:
  "digits 404 = js ''404''" "digits 500 = js ''500''" "digits 301 = js ''301''"
  "digits 0 = js ''0''"
  by (simp_all add: digits.simps js_def)

section \<open>Lists and splicing\<close>

lemma splice_remove1_mset:
  "splice_remove1 xs i = (ys, removed) \<Longrightarrow> mset ys + mset removed = mset xs"
proof -
  assume a: "splice_remove1 xs i = (ys, removed)"
  define k where "k = spliceStart i (length xs)"
  define dc where "dc = min 1 (length xs - k)"
  have ys: "ys = take k xs @ drop (k + dc) xs" and rm: "removed = take dc (drop k xs)"
    using a by (simp_all add: splice_remove1_def Let_def k_def dc_def)
  have "mset xs = mset (take k xs) + mset (drop k xs)"
    by (metis append_take_drop_id mset_append)
  also have "mset (drop k xs) = mset (take dc (drop k xs)) + mset (drop dc (drop k xs))"
    by (metis append_take_drop_id mset_append)
  finally show ?thesis
    by (simp add: ys rm add.commute)
qed

lemma splice_insert_mset: "mset (splice_insert ys i m) = add_mset m (mset ys)"
proof -
  have "mset ys = mset (take (spliceStart i (length ys)) ys) + mset (drop (spliceStart i (length ys)) ys)"
    by (metis append_take_drop_id mset_append)
  then show ?thesis
    by (simp add: splice_insert_def Let_def)
qed

lemma handleDrop_cases:
  assumes "handleDrop t s = Some s'"
  shows "(s' = s\<lparr> draggedItem := None \<rparr>)
         \<or> (\<exists>bs. s' = s\<lparr> bookmarks := bs, draggedItem := None \<rparr> \<and> mset bs = mset (filteredBookmarks s))"
proof (cases "draggedItem s")
  case None
  with assms show ?thesis by (simp add: handleDrop_def)
next
  case (Some d)
  show ?thesis
  proof (cases "bm_id d = bm_id t")
    case True
    with Some assms show ?thesis by (simp add: handleDrop_def)
  next
    case False
    obtain ys removed where sp: "splice_remove1 (filteredBookmarks s)
        (findIndex (\<lambda>b. bm_id b = bm_id d) (filteredBookmarks s)) = (ys, removed)"
      by (cases "splice_remove1 (filteredBookmarks s)
        (findIndex (\<lambda>b. bm_id b = bm_id d) (filteredBookmarks s))") auto
    from assms Some False sp obtain m rest where rm: "removed = m # rest"
      and s': "s' = s\<lparr> bookmarks := splice_insert ys
          (findIndex (\<lambda>b. bm_id b = bm_id t) (filteredBookmarks s)) m, draggedItem := None \<rparr>"
      by (auto simp: handleDrop_def Let_def split: list.splits)
    have "length removed \<le> 1"
      using sp by (auto simp: splice_remove1_def Let_def)
    with rm have "removed = [m]" by simp
    with splice_remove1_mset [OF sp] have "add_mset m (mset ys) = mset (filteredBookmarks s)"
      by simp
    with s' show ?thesis
      by (auto simp: splice_insert_mset)
  qed
qed

lemma set_filteredBookmarks: "set (filteredBookmarks s) \<subseteq> set (bookmarks s)"
  by (auto simp: filteredBookmarks_def)

section \<open>The invariant of the reachable states\<close>

lemma single_flight_pending:
  assumes "single_flight s" "pending s h = Some iv"
  shows "saving s"
    and "b \<in> set (bookmarks s) \<Longrightarrow> isLoading b \<Longrightarrow> bm_id b = NumId (tempId iv)"
    and "pending s h' \<noteq> None \<Longrightarrow> h' = h"
proof -
  from assms(1) have "\<forall>h iv. pending s h = Some iv \<longrightarrow>
        saving s
        \<and> (\<forall>b \<in> set (bookmarks s). isLoading b \<longrightarrow> bm_id b = NumId (tempId iv))
        \<and> (\<forall>h'. pending s h' \<noteq> None \<longrightarrow> h' = h)"
    by (simp add: single_flight_def)
  with assms(2) have *: "saving s
        \<and> (\<forall>b \<in> set (bookmarks s). isLoading b \<longrightarrow> bm_id b = NumId (tempId iv))
        \<and> (\<forall>h'. pending s h' \<noteq> None \<longrightarrow> h' = h)"
    by simp
  from * show "saving s" by simp
  from * show "b \<in> set (bookmarks s) \<Longrightarrow> isLoading b \<Longrightarrow> bm_id b = NumId (tempId iv)"
    by simp
  from * show "pending s h' \<noteq> None \<Longrightarrow> h' = h" by simp
qed

lemma single_flight_bookmarks:
  assumes "single_flight s" "b \<in> set (bookmarks s)"
  shows "\<not> saving s \<Longrightarrow> \<not> isLoading b" and "bm_id b = NumId n \<Longrightarrow> isLoading b"
  using assms by (simp_all add: single_flight_def)

lemma single_flightI:
  assumes "\<And>h iv. pending s h = Some iv \<Longrightarrow> saving s"
    and "\<And>h iv b. pending s h = Some iv \<Longrightarrow> b \<in> set (bookmarks s) \<Longrightarrow> isLoading b
           \<Longrightarrow> bm_id b = NumId (tempId iv)"
    and "\<And>h iv h'. pending s h = Some iv \<Longrightarrow> pending s h' \<noteq> None \<Longrightarrow> h' = h"
    and "\<And>b. \<not> saving s \<Longrightarrow> b \<in> set (bookmarks s) \<Longrightarrow> \<not> isLoading b"
    and "\<And>b n. b \<in> set (bookmarks s) \<Longrightarrow> bm_id b = NumId n \<Longrightarrow> isLoading b"
  shows "single_flight s"
  unfolding single_flight_def
proof (intro conjI allI impI ballI)
  fix h iv assume "pending s h = Some iv"
  then show "saving s" by (rule assms(1))
next
  fix h iv b assume "pending s h = Some iv" "b \<in> set (bookmarks s)" "isLoading b"
  then show "bm_id b = NumId (tempId iv)" by (rule assms(2))
next
  fix h iv h' assume "pending s h = Some iv" "pending s h' \<noteq> None"
  then show "h' = h" by (rule assms(3))
next
  fix b assume "\<not> saving s" "b \<in> set (bookmarks s)"
  then show "\<not> isLoading b" by (rule assms(4))
next
  fix b n assume "b \<in> set (bookmarks s)" "bm_id b = NumId n"
  then show "isLoading b" by (rule assms(5))
qed

lemma single_flight_subset:
  assumes sf: "single_flight s" and sub: "set (bookmarks s') \<subseteq> set (bookmarks s)"
    and sav: "saving s' = saving s"
    and pen: "\<And>h iv'. pending s' h = Some iv' \<Longrightarrow>
                \<exists>iv. pending s h = Some iv \<and> tempId iv = tempId iv'"
  shows "single_flight s'"
proof (rule single_flightI)
  fix h iv assume "pending s' h = Some iv"
  with pen obtain iv0 where "pending s h = Some iv0" by blast
  with sf sav show "saving s'" by (simp add: single_flight_pending(1))
next
  fix h iv b assume p: "pending s' h = Some iv" and b: "b \<in> set (bookmarks s')" "isLoading b"
  from p pen obtain iv0 where iv0: "pending s h = Some iv0" "tempId iv0 = tempId iv"
    by blast
  from b sub have "b \<in> set (bookmarks s)" by blast
  from single_flight_pending(2) [OF sf iv0(1) this b(2)] iv0(2)
  show "bm_id b = NumId (tempId iv)" by simp
next
  fix h iv h' assume "pending s' h = Some iv" "pending s' h' \<noteq> None"
  with pen obtain iv0 iv1 where "pending s h = Some iv0" "pending s h' = Some iv1"
    by blast
  then show "h' = h" using single_flight_pending(3) [OF sf, of h iv0 h'] by simp
next
  fix b assume "\<not> saving s'" "b \<in> set (bookmarks s')"
  with sub sav have "\<not> saving s" "b \<in> set (bookmarks s)" by auto
  then show "\<not> isLoading b" using single_flight_bookmarks(1) [OF sf] by simp
next
  fix b n assume "b \<in> set (bookmarks s')" "bm_id b = NumId n"
  with sub have "b \<in> set (bookmarks s)" "bm_id b = NumId n" by auto
  then show "isLoading b" using single_flight_bookmarks(2) [OF sf] by simp
qed

lemma single_flight_idle:
  assumes sf: "single_flight s" and idle: "\<not> saving s"
  shows "pending s h = None" and "b \<in> set (bookmarks s) \<Longrightarrow> \<not> isLoading b"
    and "b \<in> set (bookmarks s) \<Longrightarrow> bm_id b \<noteq> NumId n"
proof -
  show "pending s h = None"
    using single_flight_pending(1) [OF sf, of h] idle by (cases "pending s h") simp_all
  show l: "b \<in> set (bookmarks s) \<Longrightarrow> \<not> isLoading b"
    using single_flight_bookmarks(1) [OF sf _ idle] by simp
  show "b \<in> set (bookmarks s) \<Longrightarrow> bm_id b \<noteq> NumId n"
    using l single_flight_bookmarks(2) [OF sf, of b n] by auto
qed

lemma title_settled_frame:
  "bookmarks (title_settled P uid h r s) = bookmarks s"
  "saving (title_settled P uid h r s) = saving s"
  "pending (title_settled P uid h r s) h' = Some iv' \<Longrightarrow>
     \<exists>iv. pending s h' = Some iv \<and> tempId iv = tempId iv'"
  by (auto simp: title_settled_def sendInsert_def request_def Let_def
      split: option.splits if_splits)

lemma summary_settled_frame:
  "bookmarks (summary_settled P uid h r s) = bookmarks s"
  "saving (summary_settled P uid h r s) = saving s"
  "pending (summary_settled P uid h r s) h' = Some iv' \<Longrightarrow>
     \<exists>iv. pending s h' = Some iv \<and> tempId iv = tempId iv'"
  by (auto simp: summary_settled_def sendInsert_def request_def Let_def
      split: option.splits if_splits)

lemma addBookmark_start_invalid:
  assumes "trim (newUrl s) \<noteq> []" "parseUrl P (normalizeInput (newUrl s)) = None"
  shows "addBookmark_start P now stamp s
           = s\<lparr> saving := False, error := failedMsg,
                 bookmarks := filter (\<lambda>b. \<not> isLoading b) (bookmarks s) \<rparr>"
  using assms by (simp add: addBookmark_start_def addBookmark_catch_def Let_def)

lemma addBookmark_start_valid:
  assumes "trim (newUrl s) \<noteq> []" "parseUrl P (normalizeInput (newUrl s)) = Some u"
  shows "addBookmark_start P now stamp s
           = s\<lparr> saving := True, error := [], newUrl := [], newTags := [],
                 bookmarks := placeholder P now stamp u (processTags P (newTags s)) # bookmarks s,
                 log := log s @
                   [(TitleRequest (href u), bookmarks s),
                    (SummaryRequest (summaryRequestUrl (href u)), bookmarks s)],
                 pending := (pending s)(next_handle s \<mapsto>
                    \<lparr> tempId = now, inv_url = u, inv_tags = processTags P (newTags s),
                      urlToSave = newUrl s, tagsToSave = newTags s,
                      title_res = None, summary_res = None \<rparr>),
                 next_handle := Suc (next_handle s) \<rparr>"
  using assms by (simp add: addBookmark_start_def request_def Let_def)

lemma addBookmark_start_single_flight:
  assumes sf: "single_flight s" and idle: "\<not> saving s"
  shows "single_flight (addBookmark_start P now stamp s)"
proof (cases "trim (newUrl s) = []")
  case True
  with sf show ?thesis by (simp add: addBookmark_start_def)
next
  case False
  show ?thesis
  proof (cases "parseUrl P (normalizeInput (newUrl s))")
    case None
    show ?thesis
      by (rule single_flight_subset [OF sf])
        (use idle in \<open>auto simp: addBookmark_start_invalid [OF False None]\<close>)
  next
    case (Some u)
    note idle_facts = single_flight_idle [OF sf idle]
    show ?thesis
      unfolding addBookmark_start_valid [OF False Some]
      by (rule single_flightI) (auto simp: idle_facts placeholder_def split: if_splits)
  qed
qed

lemma addBookmark_finish_failed:
  assumes "pending s h = Some iv" "title_res iv = Some t" "summary_res iv = Some sm"
  shows "addBookmark_finish h InsertFailed s
           = s\<lparr> pending := (pending s)(h := None), error := failedMsg,
                 newUrl := urlToSave iv, newTags := tagsToSave iv,
                 bookmarks := filter (\<lambda>b. \<not> isLoading b) (bookmarks s), saving := False \<rparr>"
  using assms by (simp add: addBookmark_finish_def addBookmark_catch_def)

lemma addBookmark_finish_inserted:
  assumes "pending s h = Some iv" "title_res iv = Some t" "summary_res iv = Some sm"
  shows "addBookmark_finish h (Inserted r) s
           = s\<lparr> pending := (pending s)(h := None),
                 bookmarks := map (\<lambda>b. if bm_id b = NumId (tempId iv) then ofRow r else b)
                                (bookmarks s),
                 saving := False \<rparr>"
  using assms by (simp add: addBookmark_finish_def)

lemma single_flight_finished:
  assumes sf: "single_flight s" and p: "pending s h = Some iv"
    and bs: "\<And>b. b \<in> set bs \<Longrightarrow> \<not> isLoading b \<and> (\<forall>n. bm_id b \<noteq> NumId n)"
    and s': "bookmarks s' = bs" "\<not> saving s'" "pending s' = (pending s)(h := None)"
  shows "single_flight s'"
proof -
  have none: "pending s' h' = None" for h'
  proof (cases "h' = h")
    case True
    then show ?thesis by (simp add: s'(3))
  next
    case False
    with single_flight_pending(3) [OF sf p, of h'] have "pending s h' = None" by blast
    with False show ?thesis by (simp add: s'(3))
  qed
  show ?thesis
  proof (rule single_flightI)
    fix h' iv' assume "pending s' h' = Some iv'"
    with none [of h'] show "saving s'" by simp
  next
    fix h' iv' b assume "pending s' h' = Some iv'"
    with none [of h'] show "bm_id b = NumId (tempId iv')" by simp
  next
    fix h' iv' h'' assume "pending s' h' = Some iv'"
    with none [of h'] show "h'' = h'" by simp
  next
    fix b assume "b \<in> set (bookmarks s')"
    with bs [of b] show "\<not> isLoading b" by (simp add: s'(1))
  next
    fix b n assume "b \<in> set (bookmarks s')" "bm_id b = NumId n"
    with bs [of b] show "isLoading b" by (simp add: s'(1))
  qed
qed

lemma addBookmark_finish_single_flight:
  assumes sf: "single_flight s"
  shows "single_flight (addBookmark_finish h reply s)"
proof (cases "pending s h")
  case None
  with sf show ?thesis by (simp add: addBookmark_finish_def)
next
  case (Some iv)
  show ?thesis
  proof (cases "title_res iv = None \<or> summary_res iv = None")
    case True
    with Some sf show ?thesis by (simp add: addBookmark_finish_def)
  next
    case False
    then obtain t sm where ts: "title_res iv = Some t" "summary_res iv = Some sm"
      by auto
    note mine = single_flight_pending(2) [OF sf Some]
    note num = single_flight_bookmarks(2) [OF sf]
    show ?thesis
    proof (cases reply)
      case InsertFailed
      show ?thesis
        unfolding InsertFailed addBookmark_finish_failed [OF Some ts]
      proof (rule single_flight_finished [OF sf Some])
        fix b assume "b \<in> set (filter (\<lambda>b. \<not> isLoading b) (bookmarks s))"
        then show "\<not> isLoading b \<and> (\<forall>n. bm_id b \<noteq> NumId n)"
          using num [of b] by auto
      qed simp_all
    next
      case (Inserted r)
      show ?thesis
        unfolding Inserted addBookmark_finish_inserted [OF Some ts]
      proof (rule single_flight_finished [OF sf Some])
        fix b
        assume "b \<in> set (map (\<lambda>b. if bm_id b = NumId (tempId iv) then ofRow r else b) (bookmarks s))"
        then obtain b0 where b0: "b0 \<in> set (bookmarks s)"
          and b: "b = (if bm_id b0 = NumId (tempId iv) then ofRow r else b0)"
          by auto
        show "\<not> isLoading b \<and> (\<forall>n. bm_id b \<noteq> NumId n)"
        proof (cases "bm_id b0 = NumId (tempId iv)")
          case True
          with b show ?thesis by (simp add: ofRow_def)
        next
          case False
          with b mine [OF b0] num [OF b0] show ?thesis by auto
        qed
      qed simp_all
    qed
  qed
qed

lemma handleDrop_single_flight:
  assumes "handleDrop t s = Some s'" "single_flight s"
  shows "single_flight s'"
proof -
  from handleDrop_cases [OF assms(1)] show ?thesis
  proof
    assume "s' = s\<lparr> draggedItem := None \<rparr>"
    with assms(2) show ?thesis by (simp add: single_flight_def)
  next
    assume "\<exists>bs. s' = s\<lparr> bookmarks := bs, draggedItem := None \<rparr> \<and> mset bs = mset (filteredBookmarks s)"
    then obtain bs where s': "s' = s\<lparr> bookmarks := bs, draggedItem := None \<rparr>"
      and m: "mset bs = mset (filteredBookmarks s)" by blast
    from m have "set bs = set (filteredBookmarks s)" by (rule mset_eq_setD)
    with set_filteredBookmarks [of s] have sub: "set bs \<subseteq> set (bookmarks s)" by simp
    show ?thesis
      by (rule single_flight_subset [OF assms(2)]) (simp_all add: s' sub)
  qed
qed

lemma reachable_single_flight: "reachable P uid s \<Longrightarrow> single_flight s"
proof (induction rule: reachable.induct)
  case r_initial
  show ?case by (simp add: single_flight_def initial_def)
next
  case (r_load_start s)
  show ?case by (rule single_flight_subset [OF r_load_start.IH]) (simp_all add: fetchBookmarks_start_def request_def)
next
  case (r_load_done s reply)
  then show ?case
    by (cases reply) (auto simp: single_flight_def fetchBookmarks_done_def ofRow_def)
next
  case (r_type_url s v)
  show ?case by (rule single_flight_subset [OF r_type_url.IH]) simp_all
next
  case (r_type_tags s v)
  show ?case by (rule single_flight_subset [OF r_type_tags.IH]) simp_all
next
  case (r_submit s now stamp)
  then show ?case by (simp add: addBookmark_start_single_flight)
next
  case (r_title s h tr)
  show ?case
    by (rule single_flight_subset [OF r_title.IH]) (simp_all add: title_settled_frame)
next
  case (r_summary s h sr)
  show ?case
    by (rule single_flight_subset [OF r_summary.IH]) (simp_all add: summary_settled_frame)
next
  case (r_insert_reply s h ir)
  then show ?case by (simp add: addBookmark_finish_single_flight)
next
  case (r_delete s b)
  show ?case by (rule single_flight_subset [OF r_delete.IH]) (simp_all add: deleteBookmark_start_def request_def)
next
  case (r_delete_reply s i succeeded)
  show ?case
    by (cases succeeded; rule single_flight_subset [OF r_delete_reply.IH])
      (auto simp: deleteBookmark_finish_def)
next
  case (r_toggle s tag)
  show ?case by (rule single_flight_subset [OF r_toggle.IH]) (auto simp: toggleTagFilter_def split: if_splits)
next
  case (r_clear s)
  show ?case by (rule single_flight_subset [OF r_clear.IH]) (simp_all add: clearTagFilters_def)
next
  case (r_drag s b)
  show ?case by (rule single_flight_subset [OF r_drag.IH]) (simp_all add: handleDragStart_def)
next
  case (r_drop s b s')
  then show ?case by (auto intro: handleDrop_single_flight)
next
  case (r_sign_out s)
  show ?case by (rule single_flight_subset [OF r_sign_out.IH]) (simp_all add: handleSignOut_failed_def)
qed

section \<open>The steps of addBookmark\<close>

lemma title_settled_first:
  assumes "pending s h = Some iv" "title_res iv = None" "summary_res iv = None"
  shows "title_settled P uid h tr s
           = s\<lparr> pending := (pending s)(h \<mapsto> iv\<lparr> title_res := Some (resolveTitle P (inv_url iv) tr) \<rparr>) \<rparr>"
  using assms by (simp add: title_settled_def Let_def)

lemma summary_settled_first:
  assumes "pending s h = Some iv" "title_res iv = None" "summary_res iv = None"
  shows "summary_settled P uid h sr s
           = s\<lparr> pending := (pending s)(h \<mapsto> iv\<lparr> summary_res := Some (resolveSummary (inv_url iv) sr) \<rparr>) \<rparr>"
  using assms by (simp add: summary_settled_def Let_def)

lemma title_settled_second:
  assumes "pending s h = Some iv" "title_res iv = None" "summary_res iv = Some sm"
  shows "title_settled P uid h tr s
           = s\<lparr> pending := (pending s)(h \<mapsto> iv\<lparr> title_res := Some (resolveTitle P (inv_url iv) tr) \<rparr>),
                 log := log s @
                   [(InsertRequest \<lparr> p_user_id = uid, p_url = href (inv_url iv),
                        p_title = resolveTitle P (inv_url iv) tr, p_summary = sm,
                        p_favicon = getFaviconUrl P (href (inv_url iv)),
                        p_tags = inv_tags iv \<rparr>, bookmarks s)] \<rparr>"
  using assms by (simp add: title_settled_def sendInsert_def request_def Let_def)

lemma summary_settled_second:
  assumes "pending s h = Some iv" "title_res iv = Some t" "summary_res iv = None"
  shows "summary_settled P uid h sr s
           = s\<lparr> pending := (pending s)(h \<mapsto> iv\<lparr> summary_res := Some (resolveSummary (inv_url iv) sr) \<rparr>),
                 log := log s @
                   [(InsertRequest \<lparr> p_user_id = uid, p_url = href (inv_url iv),
                        p_title = t, p_summary = resolveSummary (inv_url iv) sr,
                        p_favicon = getFaviconUrl P (href (inv_url iv)),
                        p_tags = inv_tags iv \<rparr>, bookmarks s)] \<rparr>"
  using assms by (simp add: summary_settled_def sendInsert_def request_def Let_def)

lemma settle_order:
  "iv\<lparr> summary_res := a, title_res := b \<rparr> = (iv\<lparr> title_res := b, summary_res := a \<rparr> :: invocation)"
  by (cases iv) simp

lemma both_settled:
  assumes p: "pending s h = Some iv" and t: "title_res iv = None" and sm: "summary_res iv = None"
    and s2: "s2 = summary_settled P uid h sr (title_settled P uid h tr s)
             \<or> s2 = title_settled P uid h tr (summary_settled P uid h sr s)"
  shows "s2 = s\<lparr> pending := (pending s)(h \<mapsto>
                    iv\<lparr> title_res := Some (resolveTitle P (inv_url iv) tr),
                        summary_res := Some (resolveSummary (inv_url iv) sr) \<rparr>),
                 log := log s @
                   [(InsertRequest \<lparr> p_user_id = uid, p_url = href (inv_url iv),
                        p_title = resolveTitle P (inv_url iv) tr,
                        p_summary = resolveSummary (inv_url iv) sr,
                        p_favicon = getFaviconUrl P (href (inv_url iv)),
                        p_tags = inv_tags iv \<rparr>, bookmarks s)] \<rparr>"
proof -
  let ?t = "resolveTitle P (inv_url iv) tr" and ?sm = "resolveSummary (inv_url iv) sr"
  let ?s1 = "s\<lparr> pending := (pending s)(h \<mapsto> iv\<lparr> title_res := Some ?t \<rparr>) \<rparr>"
  let ?s1' = "s\<lparr> pending := (pending s)(h \<mapsto> iv\<lparr> summary_res := Some ?sm \<rparr>) \<rparr>"
  have a: "summary_settled P uid h sr (title_settled P uid h tr s)
             = summary_settled P uid h sr ?s1"
    by (simp add: title_settled_first [OF p t sm])
  have b: "title_settled P uid h tr (summary_settled P uid h sr s)
             = title_settled P uid h tr ?s1'"
    by (simp add: summary_settled_first [OF p t sm])
  have a': "summary_settled P uid h sr ?s1 = ?s1\<lparr> pending := (pending ?s1)(h \<mapsto>
                   iv\<lparr> title_res := Some ?t, summary_res := Some ?sm \<rparr>),
                 log := log ?s1 @
                   [(InsertRequest \<lparr> p_user_id = uid, p_url = href (inv_url iv),
                        p_title = ?t, p_summary = ?sm,
                        p_favicon = getFaviconUrl P (href (inv_url iv)),
                        p_tags = inv_tags iv \<rparr>, bookmarks ?s1)] \<rparr>"
    using summary_settled_second [of ?s1 h "iv\<lparr> title_res := Some ?t \<rparr>" ?t P uid sr] sm
    by simp
  have b': "title_settled P uid h tr ?s1' = ?s1'\<lparr> pending := (pending ?s1')(h \<mapsto>
                   iv\<lparr> title_res := Some ?t, summary_res := Some ?sm \<rparr>),
                 log := log ?s1' @
                   [(InsertRequest \<lparr> p_user_id = uid, p_url = href (inv_url iv),
                        p_title = ?t, p_summary = ?sm,
                        p_favicon = getFaviconUrl P (href (inv_url iv)),
                        p_tags = inv_tags iv \<rparr>, bookmarks ?s1')] \<rparr>"
    using title_settled_second [of ?s1' h "iv\<lparr> summary_res := Some ?sm \<rparr>" ?sm P uid tr] t
    by (simp add: settle_order)
  from s2 show ?thesis
    by (auto simp: a b a' b')
qed


section \<open>The example run\<close>

lemma example_idle_fields:
  "bookmarks example_idle = [ofRow (tagged (js ''r1'') [js ''a''])]"
  "\<not> saving example_idle"
  "newUrl example_idle = js ''example.com''"
  "newTags example_idle = js ''a,b''"
  "next_handle example_idle = 0"
  "log example_idle = []"
  "selectedTags example_idle = []"
  by (simp_all add: example_idle_def fetchBookmarks_done_def initial_def)

lemma example_idle_reachable: "reachable demo example_user example_idle"
proof -
  have a: "reachable demo example_user (fetchBookmarks_done (Some [tagged (js ''r1'') [js ''a'']]) initial)"
    by (rule r_load_done [OF r_initial])
  have b: "reachable demo example_user
             ((fetchBookmarks_done (Some [tagged (js ''r1'') [js ''a'']]) initial)
                \<lparr> newUrl := js ''example.com'' \<rparr>)"
    by (rule r_type_url [OF a]) (simp add: fetchBookmarks_done_def initial_def)
  have "reachable demo example_user
             ((fetchBookmarks_done (Some [tagged (js ''r1'') [js ''a'']]) initial)
                \<lparr> newUrl := js ''example.com'' \<rparr>\<lparr> newTags := js ''a,b'' \<rparr>)"
    by (rule r_type_tags [OF b]) (simp add: fetchBookmarks_done_def initial_def)
  then show ?thesis
    by (simp add: example_idle_def)
qed

lemma example_nonblank: "trim (js ''example.com'') \<noteq> []"
  by (simp add: trim_def js_def isWhiteSpace_def)

lemma example_url_parses:
  "parseUrl demo (normalizeInput (js ''example.com''))
     = Some \<lparr> href = js ''https://example.com/'', hostname = js ''example.com'' \<rparr>"
  by (simp add: demo_def demo_parse_def normalizeInput_def startsWith_def js_def)

lemma example_settled_either:
  "example_settled =
      summary_settled demo example_user (next_handle example_idle) SummaryNetworkError
        (title_settled demo example_user (next_handle example_idle) TitleNetworkError
          (addBookmark_start demo 1735689600000 example_stamp example_idle))
    \<or> example_settled =
      title_settled demo example_user (next_handle example_idle) TitleNetworkError
        (summary_settled demo example_user (next_handle example_idle) SummaryNetworkError
          (addBookmark_start demo 1735689600000 example_stamp example_idle))"
  by (simp add: example_settled_def example_idle_fields)

lemma example_idle_parses:
  "trim (newUrl example_idle) \<noteq> []"
  "parseUrl demo (normalizeInput (newUrl example_idle))
     = Some \<lparr> href = js ''https://example.com/'', hostname = js ''example.com'' \<rparr>"
  by (simp_all add: example_idle_fields example_nonblank example_url_parses)

lemma trim_replicate_a: "trim (replicate n 0x61) = replicate n 0x61"
  by (simp add: trim_def isWhiteSpace_def)

lemma matchesFilter_iff: "matchesFilter sel b \<longleftrightarrow> set (tagsOf b) \<inter> set sel \<noteq> {}"
  by (auto simp: matchesFilter_def tagsOf_def list_ex_iff split: option.splits)



lemma example_com_parses:
  "parseUrl demo (js ''https://example.com/'')
     = Some \<lparr> href = js ''https://example.com/'', hostname = js ''example.com'' \<rparr>"
  by (simp add: demo_def demo_parse_def startsWith_def js_def)

lemma example_dragging_fields:
  "bookmarks example_dragging
     = [ofRow (tagged (js ''1'') [js ''a'']), ofRow (tagged (js ''2'') [js ''b'']),
        ofRow (tagged (js ''3'') [js ''a''])]"
  "selectedTags example_dragging = [js ''a'']"
  "draggedItem example_dragging = Some (ofRow (tagged (js ''1'') [js ''a'']))"
  "log example_dragging = []"
  by (simp_all add: example_dragging_def handleDragStart_def toggleTagFilter_def
      fetchBookmarks_done_def initial_def)

lemma example_dragging_filtered:
  "filteredBookmarks example_dragging
     = [ofRow (tagged (js ''1'') [js ''a'']), ofRow (tagged (js ''3'') [js ''a''])]"
proof -
  have "js ''a'' \<noteq> js ''b''" by (simp add: js_def)
  then show ?thesis
    by (simp add: filteredBookmarks_def example_dragging_fields matchesFilter_iff tagsOf_def
        ofRow_def tagged_def)
qed

lemma example_dragging_reachable: "reachable demo example_user example_dragging"
proof -
  let ?rows = "[tagged (js ''1'') [js ''a''], tagged (js ''2'') [js ''b''], tagged (js ''3'') [js ''a'']]"
  let ?s1 = "fetchBookmarks_done (Some ?rows) initial"
  have r1: "reachable demo example_user ?s1"
    by (rule r_load_done [OF r_initial])
  have av: "js ''a'' \<in> set (availableTags (bookmarks ?s1))"
    by (simp add: fetchBookmarks_done_def availableTags_def tagsOf_def ofRow_def tagged_def)
  have r2: "reachable demo example_user (toggleTagFilter (js ''a'') ?s1)"
    by (rule r_toggle [OF r1 av])
  have f: "ofRow (tagged (js ''1'') [js ''a'']) \<in> set (filteredBookmarks (toggleTagFilter (js ''a'') ?s1))"
    by (simp add: filteredBookmarks_def toggleTagFilter_def fetchBookmarks_done_def initial_def
        matchesFilter_iff tagsOf_def ofRow_def tagged_def)
  have nl: "\<not> isLoading (ofRow (tagged (js ''1'') [js ''a'']))"
    by (simp add: ofRow_def)
  show ?thesis
    unfolding example_dragging_def by (rule r_drag [OF r2 f nl])
qed

lemma example_drop:
  "handleDrop (ofRow (tagged (js ''3'') [js ''a''])) example_dragging
       = Some (example_dragging\<lparr>
           bookmarks := [ofRow (tagged (js ''3'') [js ''a'']), ofRow (tagged (js ''1'') [js ''a''])],
           draggedItem := None \<rparr>)"
proof -
  have ids: "js ''1'' \<noteq> js ''3''" "js ''3'' \<noteq> js ''1''"
    by (simp_all add: js_def)
  have idx: "bm_id (ofRow (tagged i ts)) = StrId i" for i ts
    by (simp add: ofRow_def tagged_def)
  let ?b1 = "ofRow (tagged (js ''1'') [js ''a''])" and ?b3 = "ofRow (tagged (js ''3'') [js ''a''])"
  have di: "findIndex (\<lambda>b. bm_id b = bm_id ?b1) [?b1, ?b3] = 0"
    by (simp add: idx)
  have ti: "findIndex (\<lambda>b. bm_id b = bm_id ?b3) [?b1, ?b3] = 1"
    by (simp add: idx ids)
  have rm: "splice_remove1 [?b1, ?b3] 0 = ([?b3], [?b1])"
    by (simp add: splice_remove1_def spliceStart_def)
  have ins: "splice_insert [?b3] 1 ?b1 = [?b3, ?b1]"
    by (simp add: splice_insert_def spliceStart_def)
  have ne: "bm_id ?b1 \<noteq> bm_id ?b3"
    by (simp add: idx ids)
  show ?thesis
    unfolding handleDrop_def example_dragging_fields(3) example_dragging_filtered
    by (simp only: option.case ne if_False Let_def di ti rm prod.case list.case ins)
qed

lemma handleDrop_permutes_filtered_view:
  assumes "handleDrop t s = Some s'"
  shows "log s' = log s"
    and "bookmarks s' = bookmarks s \<or> mset (bookmarks s') = mset (filteredBookmarks s)"
  using handleDrop_cases [OF assms] by auto

lemma example_filtered_idle_fields:
  "bookmarks example_filtered_idle = [ofRow (tagged (js ''r1'') [js ''a''])]"
  "\<not> saving example_filtered_idle"
  "newUrl example_filtered_idle = js ''example.com''"
  "newTags example_filtered_idle = js ''b''"
  "selectedTags example_filtered_idle = [js ''a'']"
  by (simp_all add: example_filtered_idle_def toggleTagFilter_def fetchBookmarks_done_def initial_def)

lemma example_filtered_idle_reachable: "reachable demo example_user example_filtered_idle"
proof -
  let ?s0 = "fetchBookmarks_done (Some [tagged (js ''r1'') [js ''a'']]) initial"
  have a: "reachable demo example_user ?s0"
    by (rule r_load_done [OF r_initial])
  have av: "js ''a'' \<in> set (availableTags (bookmarks ?s0))"
    by (simp add: fetchBookmarks_done_def availableTags_def tagsOf_def ofRow_def tagged_def)
  have b: "reachable demo example_user (toggleTagFilter (js ''a'') ?s0)"
    by (rule r_toggle [OF a av])
  have c: "reachable demo example_user ((toggleTagFilter (js ''a'') ?s0)\<lparr> newUrl := js ''example.com'' \<rparr>)"
    by (rule r_type_url [OF b]) (simp add: toggleTagFilter_def fetchBookmarks_done_def initial_def)
  have "reachable demo example_user
          ((toggleTagFilter (js ''a'') ?s0)\<lparr> newUrl := js ''example.com'' \<rparr>\<lparr> newTags := js ''b'' \<rparr>)"
    by (rule r_type_tags [OF c]) (simp add: toggleTagFilter_def fetchBookmarks_done_def initial_def)
  then show ?thesis
    by (simp add: example_filtered_idle_def)
qed

lemma filteredBookmarks_cons:
  "filteredBookmarks (s\<lparr> bookmarks := b # bookmarks s \<rparr>)
     = (if selectedTags s = [] \<or> matchesFilter (selectedTags s) b then [b] else [])
       @ filteredBookmarks s"
  by (simp add: filteredBookmarks_def)

lemma filteredBookmarks_cong:
  "bookmarks s' = bookmarks s \<Longrightarrow> selectedTags s' = selectedTags s \<Longrightarrow>
     filteredBookmarks s' = filteredBookmarks s"
  by (simp add: filteredBookmarks_def)

lemma example_started_pending:
  "pending (addBookmark_start demo 1735689600000 example_stamp example_idle) 0
     = Some \<lparr> tempId = 1735689600000,
              inv_url = \<lparr> href = js ''https://example.com/'', hostname = js ''example.com'' \<rparr>,
              inv_tags = processTags demo (js ''a,b''), urlToSave = js ''example.com'',
              tagsToSave = js ''a,b'', title_res = None, summary_res = None \<rparr>"
  unfolding addBookmark_start_valid [OF example_idle_parses]
  by (simp add: example_idle_fields)

lemma example_settled_fields:
  "pending example_settled 0
     = Some \<lparr> tempId = 1735689600000,
              inv_url = \<lparr> href = js ''https://example.com/'', hostname = js ''example.com'' \<rparr>,
              inv_tags = processTags demo (js ''a,b''), urlToSave = js ''example.com'',
              tagsToSave = js ''a,b'',
              title_res = Some (resolveTitle demo
                 \<lparr> href = js ''https://example.com/'', hostname = js ''example.com'' \<rparr>
                 TitleNetworkError),
              summary_res = Some (resolveSummary
                 \<lparr> href = js ''https://example.com/'', hostname = js ''example.com'' \<rparr>
                 SummaryNetworkError) \<rparr>"
  "map bm_id (bookmarks example_settled) = [NumId 1735689600000, StrId (js ''r1'')]"
  "map isLoading (bookmarks example_settled) = [True, False]"
proof -
  let ?s1 = "addBookmark_start demo 1735689600000 example_stamp example_idle"
  note run = both_settled [OF example_started_pending _ _ disjI1 [OF refl],
      of demo example_user SummaryNetworkError TitleNetworkError, folded example_settled_def,
      simplified]
  have b1: "bookmarks ?s1
      = placeholder demo 1735689600000 example_stamp
          \<lparr> href = js ''https://example.com/'', hostname = js ''example.com'' \<rparr>
          (processTags demo (js ''a,b'')) # bookmarks example_idle"
    unfolding addBookmark_start_valid [OF example_idle_parses]
    by (simp add: example_idle_fields)
  show "pending example_settled 0
     = Some \<lparr> tempId = 1735689600000,
              inv_url = \<lparr> href = js ''https://example.com/'', hostname = js ''example.com'' \<rparr>,
              inv_tags = processTags demo (js ''a,b''), urlToSave = js ''example.com'',
              tagsToSave = js ''a,b'',
              title_res = Some (resolveTitle demo
                 \<lparr> href = js ''https://example.com/'', hostname = js ''example.com'' \<rparr>
                 TitleNetworkError),
              summary_res = Some (resolveSummary
                 \<lparr> href = js ''https://example.com/'', hostname = js ''example.com'' \<rparr>
                 SummaryNetworkError) \<rparr>"
    by (subst run) simp
  show "map bm_id (bookmarks example_settled) = [NumId 1735689600000, StrId (js ''r1'')]"
    by (subst run) (simp add: b1 example_idle_fields placeholder_def ofRow_def tagged_def)
  show "map isLoading (bookmarks example_settled) = [True, False]"
    by (subst run) (simp add: b1 example_idle_fields placeholder_def ofRow_def tagged_def)
qed

lemma example_settled_reachable: "reachable demo example_user example_settled"
  unfolding example_settled_def
  by (intro r_summary r_title r_submit example_idle_reachable example_idle_fields(2)
      example_idle_parses(1))

section \<open>The claims\<close>

subsection \<open>C1: a failed insert is rolled back\<close>

text \<open>
  C1. In a state the page can reach, with the form enabled (not \<open>saving\<close>, the URL not
  blank) and a URL that parses, let \<open>addBookmark\<close> run: both fetchers settle, in either
  order and with any replies, the insert is sent, and the store refuses it. Then the
  bookmark list is the list from before the call, no entry is loading, the error is the
  generic message, the URL and tag inputs hold the raw values again, and \<open>saving\<close> is
  off.
\<close>

theorem addBookmark_store_failure_rolls_back:
  assumes reach: "reachable P uid s" and idle: "\<not> saving s"
    and nonblank: "trim (newUrl s) \<noteq> []"
    and parsed: "parseUrl P (normalizeInput (newUrl s)) = Some u"
    and s1: "s1 = addBookmark_start P now stamp s"
    and s2: "s2 = summary_settled P uid (next_handle s) sr (title_settled P uid (next_handle s) tr s1)
             \<or> s2 = title_settled P uid (next_handle s) tr (summary_settled P uid (next_handle s) sr s1)"
    and s3: "s3 = addBookmark_finish (next_handle s) InsertFailed s2"
  shows "(\<exists>p. last (log s2) = (InsertRequest p, bookmarks s1))
         \<and> bookmarks s3 = bookmarks s
         \<and> (\<forall>b \<in> set (bookmarks s3). \<not> isLoading b)
         \<and> error s3 = failedMsg
         \<and> newUrl s3 = newUrl s \<and> newTags s3 = newTags s
         \<and> \<not> saving s3 \<and> pending s3 (next_handle s) = None"
proof -
  let ?h = "next_handle s"
  let ?ph = "placeholder P now stamp u (processTags P (newTags s))"
  let ?iv = "\<lparr> tempId = now, inv_url = u, inv_tags = processTags P (newTags s),
               urlToSave = newUrl s, tagsToSave = newTags s,
               title_res = None, summary_res = None \<rparr>"
  let ?iv2 = "?iv\<lparr> title_res := Some (resolveTitle P u tr),
                 summary_res := Some (resolveSummary u sr) \<rparr>"
  note start = addBookmark_start_valid [OF nonblank parsed, of now stamp]
  have p1: "pending s1 ?h = Some ?iv"
    unfolding s1 start by simp
  have b1: "bookmarks s1 = ?ph # bookmarks s"
    unfolding s1 start by simp
  have t1: "title_res ?iv = None" "summary_res ?iv = None"
    by simp_all
  note run = both_settled [OF p1 t1 s2]
  have p2: "pending s2 ?h = Some ?iv2"
    unfolding run by simp
  have b2: "bookmarks s2 = bookmarks s1"
    unfolding run by simp
  have l2: "\<exists>p. last (log s2) = (InsertRequest p, bookmarks s1)"
    unfolding run by simp
  have t2: "title_res ?iv2 = Some (resolveTitle P u tr)"
    "summary_res ?iv2 = Some (resolveSummary u sr)"
    by simp_all
  note fin = addBookmark_finish_failed [OF p2 t2]
  have clean: "filter (\<lambda>b. \<not> isLoading b) (bookmarks s) = bookmarks s"
    unfolding filter_id_conv
    using single_flight_idle(2) [OF reachable_single_flight [OF reach] idle] by blast
  have b3: "bookmarks s3 = bookmarks s"
    unfolding s3 fin by (simp add: b2 b1 placeholder_def clean)
  have nl: "\<forall>b \<in> set (bookmarks s3). \<not> isLoading b"
    unfolding b3 using single_flight_idle(2) [OF reachable_single_flight [OF reach] idle]
    by blast
  have rest: "error s3 = failedMsg" "newUrl s3 = newUrl s" "newTags s3 = newTags s"
    "\<not> saving s3" "pending s3 ?h = None"
    unfolding s3 fin by simp_all
  from l2 b3 nl rest show ?thesis
    by blast
qed

theorem addBookmark_store_failure_rolls_back_witness:
  "reachable demo example_user example_idle \<and> \<not> saving example_idle
   \<and> bookmarks example_failed = bookmarks example_idle
   \<and> bookmarks example_failed = [ofRow (tagged (js ''r1'') [js ''a''])]
   \<and> error example_failed = failedMsg
   \<and> newUrl example_failed = js ''example.com''
   \<and> newTags example_failed = js ''a,b''
   \<and> \<not> saving example_failed"
proof -
  have nb: "trim (newUrl example_idle) \<noteq> []"
    by (simp add: example_idle_fields example_nonblank)
  have pu: "parseUrl demo (normalizeInput (newUrl example_idle))
              = Some \<lparr> href = js ''https://example.com/'', hostname = js ''example.com'' \<rparr>"
    by (simp add: example_idle_fields example_url_parses)
  have s2: "example_settled =
      summary_settled demo example_user (next_handle example_idle) SummaryNetworkError
        (title_settled demo example_user (next_handle example_idle) TitleNetworkError
          (addBookmark_start demo 1735689600000 example_stamp example_idle))
    \<or> example_settled =
      title_settled demo example_user (next_handle example_idle) TitleNetworkError
        (summary_settled demo example_user (next_handle example_idle) SummaryNetworkError
          (addBookmark_start demo 1735689600000 example_stamp example_idle))"
    by (simp add: example_settled_def example_idle_fields)
  have s3: "example_failed = addBookmark_finish (next_handle example_idle) InsertFailed example_settled"
    by (simp add: example_failed_def example_idle_fields)
  from addBookmark_store_failure_rolls_back
         [OF example_idle_reachable example_idle_fields(2) nb pu refl s2 s3]
  show ?thesis
    by (simp add: example_idle_reachable example_idle_fields)
qed

subsection \<open>C2: what a call's reconciliation touches\<close>


subsection \<open>C3: the summary policy\<close>

text \<open>
  C3. On a status outside 200..299 \<open>generateSummary\<close> gives the fallback text followed by
  \<open>(Status: n)\<close>, \<open>n\<close> being the decimal digits of the status. On a body shorter than 10
  code units (the empty body included), and when the request or reading the body throws,
  it gives the generic fallback. Otherwise it gives the trimmed body, that is the body
  without its leading and trailing run of white space: as it is when that has at most
  400 code units, and else its first 400 code units followed by \<open>...\<close>.
\<close>

theorem generateSummary_policy:
  "(\<not> response_ok status \<longrightarrow>
      generateSummary u (SummaryResponse status body)
        = Returns (js ''Unable to generate summary for this URL. (Status: '' @ digits status @ js '')'')
      \<and> decimal (digits status) = status
      \<and> (\<forall>c \<in> set (digits status). 0x30 \<le> c \<and> c \<le> 0x39))
   \<and> (response_ok status \<and> length b < 10 \<longrightarrow>
      generateSummary u (SummaryResponse status (Some b))
        = Returns (js ''Unable to generate summary for this URL.''))
   \<and> generateSummary u SummaryNetworkError = Returns (js ''Unable to generate summary for this URL.'')
   \<and> (response_ok status \<longrightarrow>
      generateSummary u (SummaryResponse status None)
        = Returns (js ''Unable to generate summary for this URL.''))
   \<and> (\<exists>pre post. b = pre @ trim b @ post
         \<and> (\<forall>c \<in> set pre. isWhiteSpace c) \<and> (\<forall>c \<in> set post. isWhiteSpace c))
   \<and> (trim b = [] \<or> (\<not> isWhiteSpace (hd (trim b)) \<and> \<not> isWhiteSpace (last (trim b))))
   \<and> (response_ok status \<and> 10 \<le> length b \<and> 400 < length (trim b) \<longrightarrow>
      generateSummary u (SummaryResponse status (Some b)) = Returns (take 400 (trim b) @ js ''...'')
      \<and> length (take 400 (trim b)) = 400)
   \<and> (response_ok status \<and> 10 \<le> length b \<and> length (trim b) \<le> 400 \<longrightarrow>
      generateSummary u (SummaryResponse status (Some b)) = Returns (trim b))"
proof (intro conjI impI)
  assume "\<not> response_ok status"
  then show "generateSummary u (SummaryResponse status body)
        = Returns (js ''Unable to generate summary for this URL. (Status: '' @ digits status @ js '')'')"
    by (simp add: generateSummary_def generateSummary_try_def statusMsg_def)
next
  show "decimal (digits status) = status"
    by (rule decimal_digits)
next
  show "\<forall>c \<in> set (digits status). 0x30 \<le> c \<and> c \<le> 0x39"
    using digits_range by blast
next
  assume "response_ok status \<and> length b < 10"
  then show "generateSummary u (SummaryResponse status (Some b))
        = Returns (js ''Unable to generate summary for this URL.'')"
    by (simp add: generateSummary_def generateSummary_try_def unableMsg_def)
next
  show "generateSummary u SummaryNetworkError = Returns (js ''Unable to generate summary for this URL.'')"
    by (simp add: generateSummary_def generateSummary_try_def unableMsg_def)
next
  assume "response_ok status"
  then show "generateSummary u (SummaryResponse status None)
        = Returns (js ''Unable to generate summary for this URL.'')"
    by (simp add: generateSummary_def generateSummary_try_def unableMsg_def)
next
  show "\<exists>pre post. b = pre @ trim b @ post
         \<and> (\<forall>c \<in> set pre. isWhiteSpace c) \<and> (\<forall>c \<in> set post. isWhiteSpace c)"
    by (rule trim_splits)
next
  show "trim b = [] \<or> (\<not> isWhiteSpace (hd (trim b)) \<and> \<not> isWhiteSpace (last (trim b)))"
    using trim_ends [of b] by blast
next
  assume long: "response_ok status \<and> 10 \<le> length b \<and> 400 < length (trim b)"
  then have "b \<noteq> []" "\<not> length b < 10"
    by auto
  with long show "generateSummary u (SummaryResponse status (Some b))
      = Returns (take 400 (trim b) @ js ''...'')"
    by (simp add: generateSummary_def generateSummary_try_def ellipsis_def)
  from long show "length (take 400 (trim b)) = 400"
    by simp
next
  assume short: "response_ok status \<and> 10 \<le> length b \<and> length (trim b) \<le> 400"
  then have "b \<noteq> []" "\<not> length b < 10" "\<not> 400 < length (trim b)"
    by auto
  with short show "generateSummary u (SummaryResponse status (Some b)) = Returns (trim b)"
    by (simp add: generateSummary_def generateSummary_try_def)
qed

theorem generateSummary_policy_witness:
  "generateSummary [] (SummaryResponse 404 None)
     = Returns (js ''Unable to generate summary for this URL. (Status: 404)'')
   \<and> generateSummary [] (SummaryResponse 500 (Some (js ''Internal Server Error'')))
     = Returns (js ''Unable to generate summary for this URL. (Status: 500)'')
   \<and> generateSummary [] (SummaryResponse 301 None)
     = Returns (js ''Unable to generate summary for this URL. (Status: 301)'')
   \<and> generateSummary [] (SummaryResponse 200 (Some (js ''short'')))
     = Returns (js ''Unable to generate summary for this URL.'')
   \<and> generateSummary [] SummaryNetworkError = Returns (js ''Unable to generate summary for this URL.'')
   \<and> generateSummary [] (SummaryResponse 200 None)
     = Returns (js ''Unable to generate summary for this URL.'')
   \<and> generateSummary [] (SummaryResponse 200
         (Some ([0x20, 0x09, 0x0A] @ replicate 500 0x61 @ [0x0D, 0x0A, 0xA0])))
       = Returns (replicate 400 0x61 @ js ''...'')
   \<and> generateSummary [] (SummaryResponse 200
         (Some ([0x20, 0x20] @ js ''A page about words. It has two sentences.'' @ [0x0A])))
       = Returns (js ''A page about words. It has two sentences.'')
   \<and> generateSummary [] (SummaryResponse 200 (Some (replicate 50 0x61)))
       = Returns (replicate 50 0x61)"
proof -
  let ?long = "[0x20, 0x09, 0x0A] @ replicate 500 0x61 @ [0x0D, 0x0A, 0xA0] :: jsstring"
  let ?text = "[0x20, 0x20] @ js ''A page about words. It has two sentences.'' @ [0x0A]"
  have ok: "response_ok 200" and nok: "\<not> response_ok 404" "\<not> response_ok 500" "\<not> response_ok 301"
    by (simp_all add: response_ok_def)
  have msg: "js ''Unable to generate summary for this URL. (Status: '' @ js ''404'' @ js '')''
               = js ''Unable to generate summary for this URL. (Status: 404)''"
    "js ''Unable to generate summary for this URL. (Status: '' @ js ''500'' @ js '')''
               = js ''Unable to generate summary for this URL. (Status: 500)''"
    "js ''Unable to generate summary for this URL. (Status: '' @ js ''301'' @ js '')''
               = js ''Unable to generate summary for this URL. (Status: 301)''"
    by (simp_all add: js_def)
  have short: "length (js ''short'') < 10"
    by (simp add: js_def)
  have t1: "trim ?long = replicate 500 0x61"
    by (rule trim_padded) (simp_all add: whitespace_examples)
  have t2: "trim ?text = js ''A page about words. It has two sentences.''"
    by (rule trim_padded) (simp_all add: whitespace_examples js_def)
  have t1n: "trim (0x20 # 0x09 # 0x0A # replicate 500 0x61 @ [0x0D, 0x0A, 0xA0]) = replicate 500 0x61"
    using t1 by simp
  have t2n: "trim (0x20 # 0x20 # js ''A page about words. It has two sentences.'' @ [0x0A])
      = js ''A page about words. It has two sentences.''"
    using t2 by simp
  have t3: "trim (replicate 50 0x61) = replicate 50 0x61"
    by (rule trim_replicate_a)
  have len: "length ?text = 44" "length (js ''A page about words. It has two sentences.'') = 41"
    by (simp_all add: js_def)
  show ?thesis
    using generateSummary_policy [of 404 "[]" None "js ''short''"]
      generateSummary_policy [of 500 "[]" "Some (js ''Internal Server Error'')" "js ''short''"]
      generateSummary_policy [of 301 "[]" None "js ''short''"]
      generateSummary_policy [of 200 "[]" None "js ''short''"]
      generateSummary_policy [of 200 "[]" None ?long]
      generateSummary_policy [of 200 "[]" None ?text]
      generateSummary_policy [of 200 "[]" None "replicate 50 0x61"]
      ok nok short
    by (simp add: t1n t2n t3 len msg digits_examples)
qed

subsection \<open>C4: normalizing the raw URL\<close>

text \<open>
  C4 fails on the code for a host that starts with \<open>http\<close>. \<open>addBookmark\<close> tests
  \<open>startsWith('http')\<close>, so \<open>httpbin.org\<close>, which has no scheme, gets no \<open>https://\<close>, does
  not parse and is refused with the error message, where \<open>cleanUrl\<close> of
  \<open>generateSummary\<close>, testing \<open>http://\<close> and \<open>https://\<close>, puts the scheme in front and the
  result parses. The parser here is the stand-in \<open>demo_parse\<close>; \<open>new URL\<close> refuses
  \<open>httpbin.org\<close> as well.
\<close>

theorem addBookmark_refuses_host_starting_with_http:
  "\<not> startsWith (js ''httpbin.org'') (js ''http://'')
   \<and> \<not> startsWith (js ''httpbin.org'') (js ''https://'')
   \<and> normalizeInput (js ''httpbin.org'') = js ''httpbin.org''
   \<and> cleanUrl (js ''httpbin.org'') = js ''https://httpbin.org''
   \<and> parseUrl demo (js ''httpbin.org'') = None
   \<and> parseUrl demo (js ''https://httpbin.org'')
       = Some \<lparr> href = js ''https://httpbin.org/'', hostname = js ''httpbin.org'' \<rparr>
   \<and> reachable demo example_user (example_idle\<lparr> newUrl := js ''httpbin.org'' \<rparr>)
   \<and> error (addBookmark_start demo 1 example_stamp (example_idle\<lparr> newUrl := js ''httpbin.org'' \<rparr>))
       = js ''Failed to add bookmark. Please check the URL.''
   \<and> bookmarks (addBookmark_start demo 1 example_stamp (example_idle\<lparr> newUrl := js ''httpbin.org'' \<rparr>))
       = bookmarks example_idle
   \<and> log (addBookmark_start demo 1 example_stamp (example_idle\<lparr> newUrl := js ''httpbin.org'' \<rparr>))
       = []"
proof -
  let ?s = "example_idle\<lparr> newUrl := js ''httpbin.org'' \<rparr>"
  have sw: "\<not> startsWith (js ''httpbin.org'') (js ''http://'')"
    "\<not> startsWith (js ''httpbin.org'') (js ''https://'')"
    "startsWith (js ''httpbin.org'') (js ''http'')"
    by (simp_all add: startsWith_def js_def)
  have ni: "normalizeInput (js ''httpbin.org'') = js ''httpbin.org''"
    by (simp add: normalizeInput_def sw)
  have cu: "cleanUrl (js ''httpbin.org'') = js ''https://httpbin.org''"
    by (simp add: cleanUrl_def sw) (simp add: js_def)
  have none: "parseUrl demo (js ''httpbin.org'') = None"
    by (simp add: demo_def demo_parse_def startsWith_def js_def)
  have some: "parseUrl demo (js ''https://httpbin.org'')
       = Some \<lparr> href = js ''https://httpbin.org/'', hostname = js ''httpbin.org'' \<rparr>"
    by (simp add: demo_def demo_parse_def startsWith_def js_def)
  have r: "reachable demo example_user ?s"
    by (rule r_type_url [OF example_idle_reachable example_idle_fields(2)])
  have nb: "trim (newUrl ?s) \<noteq> []"
    by (simp add: trim_def js_def isWhiteSpace_def)
  have pn: "parseUrl demo (normalizeInput (newUrl ?s)) = None"
    by (simp add: ni none)
  have run: "error (addBookmark_start demo 1 example_stamp ?s)
       = js ''Failed to add bookmark. Please check the URL.''"
    "bookmarks (addBookmark_start demo 1 example_stamp ?s) = bookmarks example_idle"
    "log (addBookmark_start demo 1 example_stamp ?s) = []"
    unfolding addBookmark_start_invalid [OF nb pn]
    by (simp_all add: failedMsg_def example_idle_fields ofRow_def)
  from sw(1,2) ni cu none some r run show ?thesis
    by blast
qed

subsection \<open>C5: reordering by drag and drop\<close>

text \<open>
  C5 fails on the code while a tag filter is active: \<open>handleDrop\<close> reorders the filtered
  view and stores that as the whole list. In a reachable state with three bookmarks, the
  tag \<open>a\<close> selected and the first card dropped on the third, the new list is the third and
  the first bookmark; the second, hidden by the filter, is gone.
\<close>

theorem handleDrop_loses_filtered_out_bookmarks:
  "reachable demo example_user example_dragging
   \<and> ofRow (tagged (js ''3'') [js ''a'']) \<in> set (filteredBookmarks example_dragging)
   \<and> bookmarks example_dragging
       = [ofRow (tagged (js ''1'') [js ''a'']), ofRow (tagged (js ''2'') [js ''b'']),
          ofRow (tagged (js ''3'') [js ''a''])]
   \<and> handleDrop (ofRow (tagged (js ''3'') [js ''a''])) example_dragging
       = Some (example_dragging\<lparr>
           bookmarks := [ofRow (tagged (js ''3'') [js ''a'']), ofRow (tagged (js ''1'') [js ''a''])],
           draggedItem := None \<rparr>)
   \<and> ofRow (tagged (js ''2'') [js ''b''])
       \<notin> set [ofRow (tagged (js ''3'') [js ''a'']), ofRow (tagged (js ''1'') [js ''a''])]"
proof -
  have "js ''2'' \<noteq> js ''3''" "js ''2'' \<noteq> js ''1''"
    by (simp_all add: js_def)
  then have "ofRow (tagged (js ''2'') [js ''b''])
       \<notin> set [ofRow (tagged (js ''3'') [js ''a'']), ofRow (tagged (js ''1'') [js ''a''])]"
    by (simp add: ofRow_def tagged_def)
  with example_dragging_reachable example_drop show ?thesis
    by (simp add: example_dragging_filtered example_dragging_fields)
qed

text \<open>
  With no tag selected the drop is a permutation of the whole list, and in every case it
  sends no request.
\<close>

theorem handleDrop_unfiltered_is_permutation:
  "handleDrop t s = Some s' \<Longrightarrow> selectedTags s = [] \<Longrightarrow>
     mset (bookmarks s') = mset (bookmarks s) \<and> log s' = log s"
  using handleDrop_cases [of t s s'] by (auto simp: filteredBookmarks_def)

theorem handleDrop_unfiltered_is_permutation_witness:
  "selectedTags (clearTagFilters example_dragging) = []
   \<and> handleDrop (ofRow (tagged (js ''3'') [js ''a''])) (clearTagFilters example_dragging)
       = Some ((clearTagFilters example_dragging)\<lparr>
           bookmarks := [ofRow (tagged (js ''2'') [js ''b'']), ofRow (tagged (js ''3'') [js ''a'']),
                         ofRow (tagged (js ''1'') [js ''a''])],
           draggedItem := None \<rparr>)
   \<and> mset [ofRow (tagged (js ''2'') [js ''b'']), ofRow (tagged (js ''3'') [js ''a'']),
             ofRow (tagged (js ''1'') [js ''a''])]
       = mset (bookmarks (clearTagFilters example_dragging))"
proof -
  let ?b1 = "ofRow (tagged (js ''1'') [js ''a''])" and ?b2 = "ofRow (tagged (js ''2'') [js ''b''])"
    and ?b3 = "ofRow (tagged (js ''3'') [js ''a''])"
  let ?s = "clearTagFilters example_dragging"
  have ids: "js ''1'' \<noteq> js ''3''" "js ''2'' \<noteq> js ''3''" "js ''3'' \<noteq> js ''1''"
    by (simp_all add: js_def)
  have idx: "bm_id (ofRow (tagged i ts)) = StrId i" for i ts
    by (simp add: ofRow_def tagged_def)
  have f: "selectedTags ?s = []" "draggedItem ?s = Some ?b1" "bookmarks ?s = [?b1, ?b2, ?b3]"
    "filteredBookmarks ?s = [?b1, ?b2, ?b3]"
    by (simp_all add: clearTagFilters_def filteredBookmarks_def example_dragging_fields)
  have di: "findIndex (\<lambda>b. bm_id b = bm_id ?b1) [?b1, ?b2, ?b3] = 0"
    by (simp add: idx)
  have ti: "findIndex (\<lambda>b. bm_id b = bm_id ?b3) [?b1, ?b2, ?b3] = 2"
    by (simp add: idx ids)
  have rm: "splice_remove1 [?b1, ?b2, ?b3] 0 = ([?b2, ?b3], [?b1])"
    by (simp add: splice_remove1_def spliceStart_def)
  have ins: "splice_insert [?b2, ?b3] 2 ?b1 = [?b2, ?b3, ?b1]"
    by (simp add: splice_insert_def spliceStart_def)
  have ne: "bm_id ?b1 \<noteq> bm_id ?b3"
    by (simp add: idx ids)
  have d: "handleDrop ?b3 ?s = Some (?s\<lparr> bookmarks := [?b2, ?b3, ?b1], draggedItem := None \<rparr>)"
    unfolding handleDrop_def f
    by (simp only: option.case ne if_False Let_def di ti rm prod.case list.case ins)
  from handleDrop_unfiltered_is_permutation [OF d f(1)] d f(1) show ?thesis
    by simp
qed

subsection \<open>C6: the order of the effects of one call\<close>

text \<open>
  C6, as the code has it. In a state the page can reach, with the form enabled and a URL
  that parses: both fetch requests are made in the synchronous part of the call, with
  the list still as it was before the call. When that part ends, neither fetcher having
  settled, the placeholder, titled \<open>Loading...\<close> and marked loading, is at the head of
  the list; it is at the head of the filtered view as well when no tag is selected or
  one of its tags is, and not in the view otherwise. No insert is sent while only one
  fetcher has settled, and an answer of the store changes nothing before the insert is
  sent. Once both have settled, in either order, the insert is sent with the two settled
  values, the placeholder still at the head. When the store confirms, the stored record
  stands where the placeholder stood: in a run with no other event at the head, the
  rest of the list as before the call. The last three conjuncts hold in any state, so
  in any run: one fetcher settling logs nothing, the store's answer changes nothing
  before both have settled, and the confirmed record replaces the entries with the
  call's temporary id where they are.
\<close>

theorem addBookmark_order_of_effects:
  assumes reach: "reachable P uid s" and idle: "\<not> saving s"
    and nonblank: "trim (newUrl s) \<noteq> []"
    and parsed: "parseUrl P (normalizeInput (newUrl s)) = Some u"
    and ph: "ph = placeholder P now stamp u (processTags P (newTags s))"
    and s1: "s1 = addBookmark_start P now stamp s"
    and s2: "s2 = summary_settled P uid (next_handle s) sr (title_settled P uid (next_handle s) tr s1)
             \<or> s2 = title_settled P uid (next_handle s) tr (summary_settled P uid (next_handle s) sr s1)"
    and s3: "s3 = addBookmark_finish (next_handle s) (Inserted r) s2"
  shows "log s1 = log s @ [(TitleRequest (href u), bookmarks s),
                           (SummaryRequest (summaryRequestUrl (href u)), bookmarks s)]
         \<and> bookmarks s1 = ph # bookmarks s \<and> bm_title ph = js ''Loading...'' \<and> isLoading ph
         \<and> filteredBookmarks s1
             = (if selectedTags s = [] \<or> matchesFilter (selectedTags s) ph then [ph] else [])
               @ filteredBookmarks s
         \<and> map_option title_res (pending s1 (next_handle s)) = Some None
         \<and> map_option summary_res (pending s1 (next_handle s)) = Some None
         \<and> log (title_settled P uid (next_handle s) tr s1) = log s1
         \<and> bookmarks (title_settled P uid (next_handle s) tr s1) = ph # bookmarks s
         \<and> log (summary_settled P uid (next_handle s) sr s1) = log s1
         \<and> bookmarks (summary_settled P uid (next_handle s) sr s1) = ph # bookmarks s
         \<and> addBookmark_finish (next_handle s) (Inserted r) s1 = s1
         \<and> addBookmark_finish (next_handle s) (Inserted r)
               (title_settled P uid (next_handle s) tr s1)
             = title_settled P uid (next_handle s) tr s1
         \<and> addBookmark_finish (next_handle s) (Inserted r)
               (summary_settled P uid (next_handle s) sr s1)
             = summary_settled P uid (next_handle s) sr s1
         \<and> log s2 = log s1 @
               [(InsertRequest \<lparr> p_user_id = uid, p_url = href u,
                    p_title = resolveTitle P u tr, p_summary = resolveSummary u sr,
                    p_favicon = getFaviconUrl P (href u),
                    p_tags = processTags P (newTags s) \<rparr>, ph # bookmarks s)]
         \<and> bookmarks s2 = ph # bookmarks s
         \<and> bookmarks s3 = ofRow r # bookmarks s \<and> log s3 = log s2 \<and> \<not> saving s3
         \<and> (pending t k = Some iv \<and> title_res iv = None \<and> summary_res iv = None \<longrightarrow>
               log (title_settled P uid k tr t) = log t
               \<and> log (summary_settled P uid k sr t) = log t)
         \<and> (pending t k = Some iv \<and> (title_res iv = None \<or> summary_res iv = None) \<longrightarrow>
               addBookmark_finish k reply t = t)
         \<and> (pending t k = Some iv \<and> title_res iv \<noteq> None \<and> summary_res iv \<noteq> None \<longrightarrow>
               bookmarks (addBookmark_finish k (Inserted r) t)
                 = map (\<lambda>b. if bm_id b = NumId (tempId iv) then ofRow r else b) (bookmarks t))"
proof -
  let ?h = "next_handle s"
  let ?iv = "\<lparr> tempId = now, inv_url = u, inv_tags = processTags P (newTags s),
               urlToSave = newUrl s, tagsToSave = newTags s,
               title_res = None, summary_res = None \<rparr>"
  let ?iv2 = "?iv\<lparr> title_res := Some (resolveTitle P u tr),
                 summary_res := Some (resolveSummary u sr) \<rparr>"
  note start = addBookmark_start_valid [OF nonblank parsed, of now stamp]
  have p1: "pending s1 ?h = Some ?iv"
    unfolding s1 start by simp
  have b1: "bookmarks s1 = ph # bookmarks s"
    unfolding s1 start ph by simp
  have l1: "log s1 = log s @ [(TitleRequest (href u), bookmarks s),
                               (SummaryRequest (summaryRequestUrl (href u)), bookmarks s)]"
    unfolding s1 start by simp
  have sel: "selectedTags s1 = selectedTags s"
    unfolding s1 start by simp
  have f1: "filteredBookmarks s1
             = (if selectedTags s = [] \<or> matchesFilter (selectedTags s) ph then [ph] else [])
               @ filteredBookmarks s"
    using filteredBookmarks_cons [where s = s and b = ph]
      filteredBookmarks_cong [where s' = s1 and s = "s\<lparr> bookmarks := ph # bookmarks s \<rparr>"]
    by (simp add: b1 sel)
  have php: "bm_title ph = js ''Loading...''" "isLoading ph" "bm_id ph = NumId now"
    unfolding ph by (simp_all add: placeholder_def loadingTitle_def)
  have t1: "title_res ?iv = None" "summary_res ?iv = None"
    by simp_all
  have u1: "map_option title_res (pending s1 ?h) = Some None"
    "map_option summary_res (pending s1 ?h) = Some None"
    by (simp_all add: p1)
  note tf = title_settled_first [OF p1 t1, where P = P and uid = uid and tr = tr]
  note sf = summary_settled_first [OF p1 t1, where P = P and uid = uid and sr = sr]
  have one: "log (title_settled P uid ?h tr s1) = log s1"
    "bookmarks (title_settled P uid ?h tr s1) = ph # bookmarks s"
    "log (summary_settled P uid ?h sr s1) = log s1"
    "bookmarks (summary_settled P uid ?h sr s1) = ph # bookmarks s"
    unfolding tf sf by (simp_all add: b1)
  have early: "addBookmark_finish ?h (Inserted r) s1 = s1"
    "addBookmark_finish ?h (Inserted r) (title_settled P uid ?h tr s1) = title_settled P uid ?h tr s1"
    "addBookmark_finish ?h (Inserted r) (summary_settled P uid ?h sr s1)
       = summary_settled P uid ?h sr s1"
    unfolding tf sf by (simp_all add: addBookmark_finish_def p1)
  note run = both_settled [OF p1 t1 s2]
  have p2: "pending s2 ?h = Some ?iv2"
    unfolding run by simp
  have b2: "bookmarks s2 = ph # bookmarks s"
    unfolding run by (simp add: b1)
  have l2: "log s2 = log s1 @
               [(InsertRequest \<lparr> p_user_id = uid, p_url = href u,
                    p_title = resolveTitle P u tr, p_summary = resolveSummary u sr,
                    p_favicon = getFaviconUrl P (href u),
                    p_tags = processTags P (newTags s) \<rparr>, ph # bookmarks s)]"
    unfolding run by (simp add: b1)
  have t2: "title_res ?iv2 = Some (resolveTitle P u tr)"
    "summary_res ?iv2 = Some (resolveSummary u sr)"
    by simp_all
  note fin = addBookmark_finish_inserted [OF p2 t2]
  have others: "map (\<lambda>b. if bm_id b = NumId now then ofRow r else b) (bookmarks s) = bookmarks s"
    using single_flight_idle(3) [OF reachable_single_flight [OF reach] idle]
    by (simp add: map_idI)
  have b3: "bookmarks s3 = ofRow r # bookmarks s"
    unfolding s3 fin by (simp add: b2 php others)
  have rest: "log s3 = log s2" "\<not> saving s3"
    unfolding s3 fin by simp_all
  have g1: "log (title_settled P uid k tr t) = log t \<and> log (summary_settled P uid k sr t) = log t"
    if "pending t k = Some iv \<and> title_res iv = None \<and> summary_res iv = None"
    using that by (simp add: title_settled_first summary_settled_first)
  have g2: "addBookmark_finish k reply t = t"
    if "pending t k = Some iv \<and> (title_res iv = None \<or> summary_res iv = None)"
    using that by (auto simp: addBookmark_finish_def)
  have g3: "bookmarks (addBookmark_finish k (Inserted r) t)
                 = map (\<lambda>b. if bm_id b = NumId (tempId iv) then ofRow r else b) (bookmarks t)"
    if "pending t k = Some iv \<and> title_res iv \<noteq> None \<and> summary_res iv \<noteq> None"
    using that by (auto simp: addBookmark_finish_def)
  from l1 b1 php(1,2) f1 u1 one early l2 b2 b3 rest g1 g2 g3 show ?thesis
    by blast
qed

theorem addBookmark_order_of_effects_witness:
  "reachable demo example_user example_idle \<and> \<not> saving example_idle
   \<and> map (map bm_id \<circ> snd) (log (addBookmark_start demo 1735689600000 example_stamp example_idle))
        = [[StrId (js ''r1'')], [StrId (js ''r1'')]]
   \<and> map bm_title (bookmarks (addBookmark_start demo 1735689600000 example_stamp example_idle))
        = [js ''Loading...'', js ''Example'']
   \<and> map bm_title (filteredBookmarks (addBookmark_start demo 1735689600000 example_stamp example_idle))
        = [js ''Loading...'', js ''Example'']
   \<and> map fst (log example_settled)
        = [TitleRequest (js ''https://example.com/''),
           SummaryRequest (js ''https://r.jina.ai/https://example.com/''),
           InsertRequest \<lparr> p_user_id = example_user, p_url = js ''https://example.com/'',
             p_title = js ''example.com'',
             p_summary = js ''Unable to generate summary for this URL.'',
             p_favicon = js ''https://www.google.com/s2/favicons?domain=example.com&sz=32'',
             p_tags = [js ''a'', js ''b''] \<rparr>]
   \<and> map bm_id (bookmarks example_settled) = [NumId 1735689600000, StrId (js ''r1'')]
   \<and> map bm_id (bookmarks example_stored) = [StrId (js ''r2''), StrId (js ''r1'')]"
proof -
  let ?u = "\<lparr> href = js ''https://example.com/'', hostname = js ''example.com'' \<rparr>"
  have s3: "example_stored = addBookmark_finish (next_handle example_idle)
              (Inserted (tagged (js ''r2'') [js ''a'', js ''b''])) example_settled"
    by (simp add: example_stored_def example_idle_fields)
  have tags: "processTags demo (js ''a,b'') = [js ''a'', js ''b'']"
    by (simp add: processTags_def demo_def js_def trim_def isWhiteSpace_def ascii_lower_def)
  have parse2: "demo_parse (js ''https://example.com/'') = Some ?u"
    by (simp add: demo_parse_def startsWith_def js_def)
  have fav: "getFaviconUrl demo (js ''https://example.com/'')
               = js ''https://www.google.com/s2/favicons?domain=example.com&sz=32''"
    by (simp add: getFaviconUrl_def demo_def parse2) (simp add: js_def)
  have title: "resolveTitle demo ?u TitleNetworkError = js ''example.com''"
    by (simp add: resolveTitle_def getPageTitle_def getPageTitle_try_def hostnameOf_def demo_def parse2)
  have summary: "resolveSummary ?u SummaryNetworkError = js ''Unable to generate summary for this URL.''"
    by (simp add: resolveSummary_def generateSummary_def generateSummary_try_def unableMsg_def)
  have req: "summaryRequestUrl (js ''https://example.com/'') = js ''https://r.jina.ai/https://example.com/''"
    by (simp add: summaryRequestUrl_def cleanUrl_def startsWith_def js_def)
  from addBookmark_order_of_effects
         [OF example_idle_reachable example_idle_fields(2) example_idle_parses refl refl
            example_settled_either s3,
          where t = "addBookmark_start demo 1735689600000 example_stamp example_idle" and k = 0]
       example_started_pending
  show ?thesis
    by (simp add: example_idle_reachable example_idle_fields tags fav title summary req
        placeholder_def ofRow_def tagged_def filteredBookmarks_def)
qed

text \<open>
  The claim's first clause fails: in the example both requests are made while the list
  holds the one loaded row and no placeholder, which is in the list only afterwards. And
  with the tag \<open>a\<close> selected and \<open>b\<close> typed as the new tag, the placeholder is in the list
  but not in the filtered view the page shows.
\<close>

theorem addBookmark_fetches_precede_placeholder_counterexample:
  "reachable demo example_user example_idle
   \<and> map bm_id (bookmarks example_idle) = [StrId (js ''r1'')]
   \<and> log (addBookmark_start demo 1735689600000 example_stamp example_idle)
       = [(TitleRequest (js ''https://example.com/''), bookmarks example_idle),
          (SummaryRequest (js ''https://r.jina.ai/https://example.com/''), bookmarks example_idle)]
   \<and> map bm_id (bookmarks (addBookmark_start demo 1735689600000 example_stamp example_idle))
       = [NumId 1735689600000, StrId (js ''r1'')]
   \<and> reachable demo example_user example_filtered_idle
   \<and> map bm_id (filteredBookmarks
         (addBookmark_start demo 1735689600000 example_stamp example_filtered_idle))
       = [StrId (js ''r1'')]"
proof -
  let ?u = "\<lparr> href = js ''https://example.com/'', hostname = js ''example.com'' \<rparr>"
  note start = addBookmark_start_valid [OF example_idle_parses, of 1735689600000 example_stamp]
  have req: "summaryRequestUrl (js ''https://example.com/'') = js ''https://r.jina.ai/https://example.com/''"
    by (simp add: summaryRequestUrl_def cleanUrl_def startsWith_def js_def)
  have a: "map bm_id (bookmarks example_idle) = [StrId (js ''r1'')]"
    by (simp add: example_idle_fields ofRow_def tagged_def)
  have b: "log (addBookmark_start demo 1735689600000 example_stamp example_idle)
       = [(TitleRequest (js ''https://example.com/''), bookmarks example_idle),
          (SummaryRequest (js ''https://r.jina.ai/https://example.com/''), bookmarks example_idle)]"
    unfolding start by (simp add: example_idle_fields req)
  have c: "map bm_id (bookmarks (addBookmark_start demo 1735689600000 example_stamp example_idle))
       = [NumId 1735689600000, StrId (js ''r1'')]"
    unfolding start by (simp add: example_idle_fields placeholder_def ofRow_def tagged_def)
  have nb: "trim (newUrl example_filtered_idle) \<noteq> []"
    by (simp add: example_filtered_idle_fields example_nonblank)
  have pu: "parseUrl demo (normalizeInput (newUrl example_filtered_idle)) = Some ?u"
    by (simp add: example_filtered_idle_fields example_url_parses)
  note startf = addBookmark_start_valid [OF nb pu, of 1735689600000 example_stamp]
  have tags: "processTags demo (js ''b'') = [js ''b'']"
    by (simp add: processTags_def demo_def js_def trim_def isWhiteSpace_def ascii_lower_def)
  have ab: "js ''b'' \<noteq> js ''a''"
    by (simp add: js_def)
  have d: "map bm_id (filteredBookmarks
         (addBookmark_start demo 1735689600000 example_stamp example_filtered_idle))
       = [StrId (js ''r1'')]"
    unfolding startf
    by (simp add: filteredBookmarks_def example_filtered_idle_fields matchesFilter_iff tagsOf_def
        placeholder_def tags ab ofRow_def tagged_def)
  from example_idle_reachable a b c example_filtered_idle_reachable d show ?thesis
    by blast
qed

subsection \<open>C7: the fetchers settle with fallbacks\<close>

text \<open>
  C7, as the code has it. \<open>generateSummary\<close> resolves for every input and reply, and
  turns every exception of its body into the generic fallback. For a URL string that
  parses, \<open>getPageTitle\<close> resolves for every reply: to the hostname when the request
  fails, when the body is not JSON or is \<open>null\<close>, and when the title is missing or empty;
  and to the title of the body when it is not empty, whatever the status of the response.
\<close>

theorem fetchers_settle_with_fallbacks:
  "(\<exists>v. generateSummary url sr = Returns v)
   \<and> (generateSummary_try sr = Throws \<longrightarrow> generateSummary url sr = Returns unableMsg)
   \<and> (parseUrl P url = Some urlObj \<longrightarrow>
        (\<exists>v. getPageTitle P url tr = Returns v)
        \<and> getPageTitle P url TitleNetworkError = Returns (hostname urlObj)
        \<and> getPageTitle P url (TitleResponse status NotJson) = Returns (hostname urlObj)
        \<and> getPageTitle P url (TitleResponse status JsonNull) = Returns (hostname urlObj)
        \<and> getPageTitle P url (TitleResponse status (JsonObj None)) = Returns (hostname urlObj)
        \<and> getPageTitle P url (TitleResponse status (JsonObj (Some []))) = Returns (hostname urlObj)
        \<and> (title \<noteq> [] \<longrightarrow>
             getPageTitle P url (TitleResponse status (JsonObj (Some title))) = Returns title))"
proof -
  have s: "\<exists>v. generateSummary url sr = Returns v"
    by (cases "generateSummary_try sr") (simp_all add: generateSummary_def)
  have t: "\<exists>v. getPageTitle P url tr = Returns v" if "parseUrl P url = Some urlObj"
    using that
    by (cases "getPageTitle_try P url tr") (simp_all add: getPageTitle_def hostnameOf_def)
  show ?thesis
    using s t
    by (auto simp: generateSummary_def getPageTitle_def getPageTitle_try_def hostnameOf_def)
qed

theorem fetchers_settle_with_fallbacks_witness:
  "parseUrl demo (js ''https://example.com/'')
       = Some \<lparr> href = js ''https://example.com/'', hostname = js ''example.com'' \<rparr>
   \<and> getPageTitle demo (js ''https://example.com/'') TitleNetworkError = Returns (js ''example.com'')
   \<and> getPageTitle demo (js ''https://example.com/'') (TitleResponse 404 NotJson)
       = Returns (js ''example.com'')
   \<and> getPageTitle demo (js ''https://example.com/'') (TitleResponse 200 (JsonObj None))
       = Returns (js ''example.com'')
   \<and> getPageTitle demo (js ''https://example.com/'')
         (TitleResponse 200 (JsonObj (Some (js ''Example Domain''))))
       = Returns (js ''Example Domain'')
   \<and> generateSummary_try (SummaryResponse 200 None) = Throws
   \<and> generateSummary (js ''https://example.com/'') (SummaryResponse 200 None) = Returns unableMsg"
proof -
  have ne: "js ''Example Domain'' \<noteq> []"
    by (simp add: js_def)
  have th: "generateSummary_try (SummaryResponse 200 None) = Throws"
    by (simp add: generateSummary_try_def response_ok_def)
  show ?thesis
    using fetchers_settle_with_fallbacks
         [where P = demo and url = "js ''https://example.com/''" and status = 404
            and title = "js ''Example Domain''" and sr = "SummaryResponse 200 None"]
       fetchers_settle_with_fallbacks
         [where P = demo and url = "js ''https://example.com/''" and status = 200
            and title = "js ''Example Domain''" and sr = "SummaryResponse 200 None"]
       example_com_parses ne th
    by simp
qed

text \<open>
  The claim fails for a response of non-success status: \<open>getPageTitle\<close> never reads the
  status, and a body with a title gives that title, not the hostname.
\<close>

theorem getPageTitle_ignores_status_counterexample:
  "\<not> response_ok 500
   \<and> parseUrl demo (js ''https://example.com/'')
       = Some \<lparr> href = js ''https://example.com/'', hostname = js ''example.com'' \<rparr>
   \<and> getPageTitle demo (js ''https://example.com/'')
         (TitleResponse 500 (JsonObj (Some (js ''Internal Server Error''))))
       = Returns (js ''Internal Server Error'')
   \<and> js ''Internal Server Error'' \<noteq> js ''example.com''"
  by (simp add: response_ok_def example_com_parses getPageTitle_def getPageTitle_try_def)
    (simp add: js_def)

subsection \<open>C8: the filtered view\<close>

text \<open>
  C8. With no tag selected the filtered view is the whole list; otherwise it is the
  bookmarks, in list order, that have at least one tag among the selected ones.
\<close>

theorem filteredBookmarks_union_semantics:
  "(selectedTags s = [] \<longrightarrow> filteredBookmarks s = bookmarks s)
   \<and> (selectedTags s \<noteq> [] \<longrightarrow>
        filteredBookmarks s
          = filter (\<lambda>b. set (tagsOf b) \<inter> set (selectedTags s) \<noteq> {}) (bookmarks s))"
  by (simp add: filteredBookmarks_def matchesFilter_iff [abs_def])

theorem filteredBookmarks_union_semantics_witness:
  "filteredBookmarks (initial\<lparr> bookmarks :=
        [ofRow (tagged (js ''1'') [js ''a'']), ofRow (tagged (js ''2'') [js ''b'']),
         ofRow (tagged (js ''3'') [js ''a'', js ''b'']), ofRow (tagged (js ''4'') [])],
      selectedTags := [js ''a''] \<rparr>)
     = [ofRow (tagged (js ''1'') [js ''a'']), ofRow (tagged (js ''3'') [js ''a'', js ''b''])]
   \<and> filteredBookmarks (initial\<lparr> bookmarks :=
        [ofRow (tagged (js ''1'') [js ''a'']), ofRow (tagged (js ''2'') [js ''b'']),
         ofRow (tagged (js ''3'') [js ''a'', js ''b'']), ofRow (tagged (js ''4'') [])],
      selectedTags := [js ''a'', js ''b''] \<rparr>)
     = [ofRow (tagged (js ''1'') [js ''a'']), ofRow (tagged (js ''2'') [js ''b'']),
        ofRow (tagged (js ''3'') [js ''a'', js ''b''])]
   \<and> filteredBookmarks (initial\<lparr> bookmarks :=
        [ofRow (tagged (js ''1'') [js ''a'']), ofRow (tagged (js ''2'') [js ''b'']),
         ofRow (tagged (js ''3'') [js ''a'', js ''b'']), ofRow (tagged (js ''4'') [])] \<rparr>)
     = [ofRow (tagged (js ''1'') [js ''a'']), ofRow (tagged (js ''2'') [js ''b'']),
        ofRow (tagged (js ''3'') [js ''a'', js ''b'']), ofRow (tagged (js ''4'') [])]"
proof -
  have t: "tagsOf (ofRow (tagged i ts)) = ts" for i ts
    by (simp add: tagsOf_def ofRow_def tagged_def)
  have ab: "js ''a'' \<noteq> js ''b''"
    by (simp add: js_def)
  let ?bs = "[ofRow (tagged (js ''1'') [js ''a'']), ofRow (tagged (js ''2'') [js ''b'']),
         ofRow (tagged (js ''3'') [js ''a'', js ''b'']), ofRow (tagged (js ''4'') [])]"
  show ?thesis
    using filteredBookmarks_union_semantics [of "initial\<lparr> bookmarks := ?bs, selectedTags := [js ''a''] \<rparr>"]
      filteredBookmarks_union_semantics [of "initial\<lparr> bookmarks := ?bs, selectedTags := [js ''a'', js ''b''] \<rparr>"]
      filteredBookmarks_union_semantics [of "initial\<lparr> bookmarks := ?bs \<rparr>"]
      ab
    by (simp add: t initial_def)
qed

subsection \<open>C9: toggling a tag filter\<close>

text \<open>
  C9, as the code has it. \<open>toggleTagFilter\<close> appends the tag to the selected tags when
  it is not among them, and removes every occurrence of it when it is; nothing else of
  the state changes. The function does not look at the available tags: a tag that no
  bookmark carries is toggled like any other.
\<close>

theorem toggleTagFilter_toggles:
  "(tag \<notin> set (selectedTags s) \<longrightarrow>
      toggleTagFilter tag s = s\<lparr> selectedTags := selectedTags s @ [tag] \<rparr>
      \<and> tag \<in> set (selectedTags (toggleTagFilter tag s)))
   \<and> (tag \<in> set (selectedTags s) \<longrightarrow>
      toggleTagFilter tag s = s\<lparr> selectedTags := filter (\<lambda>t. t \<noteq> tag) (selectedTags s) \<rparr>
      \<and> tag \<notin> set (selectedTags (toggleTagFilter tag s)))"
proof (cases "tag \<in> set (selectedTags s)")
  case True
  then show ?thesis
    by (simp add: toggleTagFilter_def)
next
  case False
  then show ?thesis
    by (simp add: toggleTagFilter_def)
qed

theorem toggleTagFilter_toggles_witness:
  "selectedTags (toggleTagFilter (js ''x'') initial) = [js ''x'']
   \<and> selectedTags (toggleTagFilter (js ''x'') (toggleTagFilter (js ''x'') initial)) = []"
proof -
  have a: "js ''x'' \<notin> set (selectedTags initial)"
    by (simp add: initial_def)
  have b: "selectedTags (toggleTagFilter (js ''x'') initial) = [js ''x'']"
    using a toggleTagFilter_toggles [of "js ''x''" initial] by (simp add: initial_def)
  then show ?thesis
    using toggleTagFilter_toggles [of "js ''x''" "toggleTagFilter (js ''x'') initial"]
    by simp
qed

text \<open>
  The claim's last clause fails: on the empty list no tag is available, and toggling a
  tag still selects it.
\<close>

theorem toggleTagFilter_unavailable_counterexample:
  "js ''x'' \<notin> set (availableTags (bookmarks initial))
   \<and> selectedTags (toggleTagFilter (js ''x'') initial) \<noteq> selectedTags initial"
  by (simp add: availableTags_def initial_def toggleTagFilter_def)

subsection \<open>C10: the length check comes before the trim\<close>

text \<open>
  C10. On a success status and a body of at least 10 code units whose trimmed form is
  shorter than 10, \<open>generateSummary\<close> returns the trimmed body, not the fallback, and
  that is the summary \<open>addBookmark\<close> puts into the insert. Twelve spaces give the empty
  summary.
\<close>

theorem generateSummary_checks_length_before_trim:
  "(response_ok status \<and> 10 \<le> length b \<and> length (trim b) < 10 \<longrightarrow>
      generateSummary u (SummaryResponse status (Some b)) = Returns (trim b)
      \<and> resolveSummary v (SummaryResponse status (Some b)) = trim b)
   \<and> trim (replicate 12 0x20) = []
   \<and> resolveSummary v (SummaryResponse 200 (Some (replicate 12 0x20))) = []"
proof -
  have sp: "trim (replicate 12 0x20) = []"
    by (simp add: trim_def isWhiteSpace_def)
  then show ?thesis
    by (auto simp: generateSummary_def generateSummary_try_def resolveSummary_def response_ok_def)
qed

theorem generateSummary_checks_length_before_trim_witness:
  "response_ok 200 \<and> 10 \<le> length (js ''   hello    '') \<and> length (trim (js ''   hello    '')) < 10
   \<and> generateSummary [] (SummaryResponse 200 (Some (js ''   hello    ''))) = Returns (js ''hello'')
   \<and> generateSummary [] (SummaryResponse 200 (Some (replicate 12 0x20))) = Returns []"
proof -
  have a: "response_ok 200"
    by (simp add: response_ok_def)
  have b: "trim (js ''   hello    '') = js ''hello''" "trim (replicate 12 0x20) = []"
    by (simp_all add: trim_def isWhiteSpace_def js_def)
  have c: "length (js ''   hello    '') = 12" "length (js ''hello'') = 5"
    by (simp_all add: js_def)
  show ?thesis
    using a b c
      generateSummary_checks_length_before_trim [of 200 "js ''   hello    ''" "[]"]
      generateSummary_checks_length_before_trim [of 200 "replicate 12 0x20" "[]"]
    by simp
qed

section \<open>Further properties of the code\<close>

text \<open>
  Whenever the form is enabled no call is suspended and the list holds no placeholder:
  no entry is loading, and no entry has a numeric id.
\<close>

theorem idle_page_has_no_placeholder:
  assumes "reachable P uid s" "\<not> saving s"
  shows "pending s h = None
         \<and> (\<forall>b \<in> set (bookmarks s). \<not> isLoading b \<and> (\<forall>n. bm_id b \<noteq> NumId n))"
  using single_flight_idle [OF reachable_single_flight [OF assms(1)] assms(2)] by blast

theorem idle_page_has_no_placeholder_witness:
  "reachable demo example_user example_idle \<and> \<not> saving example_idle
   \<and> pending example_idle 0 = None
   \<and> map isLoading (bookmarks example_idle) = [False]"
  using idle_page_has_no_placeholder [OF example_idle_reachable example_idle_fields(2), of 0]
    example_idle_reachable
  by (simp add: example_idle_fields)

text \<open>
  On a string that does not parse, \<open>getPageTitle\<close> rejects when the request fails: its
  \<open>catch\<close> block evaluates \<open>new URL(url)\<close> again.
\<close>

theorem getPageTitle_throws_on_unparsable:
  "parseUrl P url = None \<Longrightarrow> getPageTitle P url TitleNetworkError = Throws"
  by (simp add: getPageTitle_def getPageTitle_try_def hostnameOf_def)

theorem getPageTitle_throws_on_unparsable_witness:
  "parseUrl demo (js ''not a url'') = None
   \<and> getPageTitle demo (js ''not a url'') TitleNetworkError = Throws"
proof -
  have n: "parseUrl demo (js ''not a url'') = None"
    by (simp add: demo_def demo_parse_def startsWith_def js_def)
  from getPageTitle_throws_on_unparsable [OF n] n show ?thesis
    by simp
qed

text \<open>
  In every state the page can reach, a call's reconciliation touches the entries that
  carry the call's own temporary id and no others, and no other call is suspended.
\<close>

theorem reconciliation_touches_own_entries:
  assumes reach: "reachable P uid s" and p: "pending s h = Some iv"
    and settled: "title_res iv \<noteq> None" "summary_res iv \<noteq> None"
  shows "bookmarks (addBookmark_finish h (Inserted r) s)
           = map (\<lambda>b. if bm_id b = NumId (tempId iv) then ofRow r else b) (bookmarks s)
         \<and> bookmarks (addBookmark_finish h InsertFailed s)
           = filter (\<lambda>b. bm_id b \<noteq> NumId (tempId iv)) (bookmarks s)
         \<and> (\<forall>h'. pending s h' \<noteq> None \<longrightarrow> h' = h)"
proof -
  note sf = reachable_single_flight [OF reach]
  from settled obtain t sm where ts: "title_res iv = Some t" "summary_res iv = Some sm"
    by auto
  have own: "isLoading b \<longleftrightarrow> bm_id b = NumId (tempId iv)" if "b \<in> set (bookmarks s)" for b
    using single_flight_pending(2) [OF sf p that] single_flight_bookmarks(2) [OF sf that]
    by blast
  have f: "filter (\<lambda>b. \<not> isLoading b) (bookmarks s)
             = filter (\<lambda>b. bm_id b \<noteq> NumId (tempId iv)) (bookmarks s)"
    by (rule filter_cong) (simp_all add: own)
  have one: "\<forall>h'. pending s h' \<noteq> None \<longrightarrow> h' = h"
    using single_flight_pending(3) [OF sf p] by blast
  show ?thesis
    unfolding addBookmark_finish_inserted [OF p ts] addBookmark_finish_failed [OF p ts]
    using f one by simp
qed

theorem reconciliation_touches_own_entries_witness:
  "reachable demo example_user example_settled
   \<and> map_option tempId (pending example_settled 0) = Some 1735689600000
   \<and> map bm_id (bookmarks example_settled) = [NumId 1735689600000, StrId (js ''r1'')]
   \<and> map bm_id (bookmarks example_stored) = [StrId (js ''r2''), StrId (js ''r1'')]
   \<and> map bm_id (bookmarks example_failed) = [StrId (js ''r1'')]"
proof -
  note th = reconciliation_touches_own_entries
      [OF example_settled_reachable example_settled_fields(1),
       where r = "tagged (js ''r2'') [js ''a'', js ''b'']", simplified,
       folded example_stored_def example_failed_def]
  obtain b1 b2 where bs: "bookmarks example_settled = [b1, b2]"
    and i: "bm_id b1 = NumId 1735689600000" "bm_id b2 = StrId (js ''r1'')"
    using example_settled_fields(2) by (auto simp: map_eq_Cons_conv)
  from th have st: "bookmarks example_stored
      = map (\<lambda>b. if bm_id b = NumId 1735689600000 then ofRow (tagged (js ''r2'') [js ''a'', js ''b'']) else b)
          (bookmarks example_settled)"
    and fl: "bookmarks example_failed
      = filter (\<lambda>b. bm_id b \<noteq> NumId 1735689600000) (bookmarks example_settled)"
    by simp_all
  have a: "map bm_id (bookmarks example_stored) = [StrId (js ''r2''), StrId (js ''r1'')]"
    unfolding st bs by (simp add: i ofRow_def tagged_def)
  have b: "map bm_id (bookmarks example_failed) = [StrId (js ''r1'')]"
    unfolding fl bs by (simp add: i)
  from example_settled_reachable example_settled_fields(1,2) a b show ?thesis
    by simp
qed

text \<open>
  When the normalized URL does not parse, \<open>addBookmark\<close> sets the error message and keeps
  the raw inputs; it logs no request, leaves no call suspended and adds no entry to the
  list: what remains is the old list without loading entries, which in a reachable state
  with the form enabled is the old list itself.
\<close>

theorem addBookmark_invalid_url_stops_before_any_effect:
  assumes nonblank: "trim (newUrl s) \<noteq> []"
    and unparsed: "parseUrl P (normalizeInput (newUrl s)) = None"
  shows "error (addBookmark_start P now stamp s) = js ''Failed to add bookmark. Please check the URL.''
         \<and> log (addBookmark_start P now stamp s) = log s
         \<and> pending (addBookmark_start P now stamp s) = pending s
         \<and> bookmarks (addBookmark_start P now stamp s)
             = filter (\<lambda>b. \<not> isLoading b) (bookmarks s)
         \<and> newUrl (addBookmark_start P now stamp s) = newUrl s
         \<and> newTags (addBookmark_start P now stamp s) = newTags s
         \<and> \<not> saving (addBookmark_start P now stamp s)
         \<and> (reachable P uid s \<and> \<not> saving s \<longrightarrow>
              bookmarks (addBookmark_start P now stamp s) = bookmarks s)"
proof -
  have b: "filter (\<lambda>b. \<not> isLoading b) (bookmarks s) = bookmarks s"
    if "reachable P uid s" "\<not> saving s"
    unfolding filter_id_conv
    using single_flight_idle(2) [OF reachable_single_flight [OF that(1)] that(2)] by blast
  show ?thesis
    unfolding addBookmark_start_invalid [OF nonblank unparsed]
    using b by (simp add: failedMsg_def)
qed

theorem addBookmark_invalid_url_stops_before_any_effect_witness:
  "parseUrl demo (normalizeInput (js ''https://'')) = None
   \<and> reachable demo example_user (example_idle\<lparr> newUrl := js ''https://'' \<rparr>)
   \<and> error (addBookmark_start demo 1 example_stamp (example_idle\<lparr> newUrl := js ''https://'' \<rparr>))
        = js ''Failed to add bookmark. Please check the URL.''
   \<and> log (addBookmark_start demo 1 example_stamp (example_idle\<lparr> newUrl := js ''https://'' \<rparr>))
        = []
   \<and> bookmarks (addBookmark_start demo 1 example_stamp (example_idle\<lparr> newUrl := js ''https://'' \<rparr>))
        = bookmarks example_idle
   \<and> newUrl (addBookmark_start demo 1 example_stamp (example_idle\<lparr> newUrl := js ''https://'' \<rparr>))
        = js ''https://''"
proof -
  let ?s = "example_idle\<lparr> newUrl := js ''https://'' \<rparr>"
  have none: "parseUrl demo (normalizeInput (js ''https://'')) = None"
    by (simp add: demo_def demo_parse_def normalizeInput_def startsWith_def js_def)
  have r: "reachable demo example_user ?s"
    by (rule r_type_url [OF example_idle_reachable example_idle_fields(2)])
  have nb: "trim (newUrl ?s) \<noteq> []"
    by (simp add: trim_def js_def isWhiteSpace_def)
  have pn: "parseUrl demo (normalizeInput (newUrl ?s)) = None"
    by (simp add: none)
  from addBookmark_invalid_url_stops_before_any_effect
         [OF nb pn, where now = 1 and stamp = example_stamp and uid = example_user] none r
  show ?thesis
    by (simp add: example_idle_fields ofRow_def)
qed

end
